theory Spec2Isabelle
  imports Main
begin

text \<open>
  A model of \<^verbatim>\<open>amqp_manager.js\<close>: the connection state machine \<^verbatim>\<open>AmqpConnectionFsm\<close>
  (a machina state machine), the helper \<^verbatim>\<open>assertTopology\<close> and the facade
  \<^verbatim>\<open>AmqpManager\<close> with its methods \<^verbatim>\<open>channel\<close> and \<^verbatim>\<open>close\<close>. The program is
  single-threaded and event-driven: the model is a record of the program's state and one
  function per callback, and a run is a list of the things that can happen to the program.
  The older state machine of the repository, which the manager does not use, is not
  modelled.
\<close>

section \<open>Configuration\<close>

text \<open>
  The configuration object of \<^verbatim>\<open>amqp_manager.js\<close>. A property the caller left out is
  \<^verbatim>\<open>undefined\<close> in JavaScript and \<open>None\<close> here. \<^verbatim>\<open>connection.options\<close> may be
  \<^verbatim>\<open>null\<close>, which is a value of its own.
\<close>

datatype socket_options = Null | Options string

datatype exchange_decl = Exchange (e_exchange: string) (e_type: string) (e_options: string)

datatype queue_decl = Queue (q_queue: string) (q_options: string)

datatype binding_decl = Binding (b_queue: string) (b_exchange: string) (b_pattern: string)

record connection_config =
  protocol :: "string option"
  user :: "string option"
  password :: "string option"
  host :: "string option"
  port :: "nat option"
  vhost :: "string option"
  params :: "(string \<times> nat) list option"
  options :: "socket_options option"

record channel_config =
  prefetch :: "nat option"
  confirm :: "bool option"

record config =
  connection :: "connection_config option"
  channel :: "channel_config option"
  queues :: "queue_decl list option"
  exchanges :: "exchange_decl list option"
  bindings :: "binding_decl list option"

text \<open>
  \<^verbatim>\<open>_.defaultsDeep(config, {...})\<close> (lines 183-203): lodash assigns, into its first
  argument, every default whose destination property is \<^verbatim>\<open>undefined\<close>, recursing into
  nested objects, and returns that same first argument. A property that is set is kept.
\<close>

definition or_default :: "'a \<Rightarrow> 'a option \<Rightarrow> 'a option" where
  "or_default d v = (case v of None \<Rightarrow> Some d | Some x \<Rightarrow> Some x)"

definition default_params :: "(string \<times> nat) list" where
  "default_params = [(''heartbeat'', 30)]"

definition merge_params :: "(string \<times> nat) list \<Rightarrow> (string \<times> nat) list \<Rightarrow> (string \<times> nat) list" where
  "merge_params ps ds = ps @ filter (\<lambda>kv. map_of ps (fst kv) = None) ds"

definition empty_connection :: connection_config where
  "empty_connection = \<lparr>protocol = None, user = None, password = None, host = None,
     port = None, vhost = None, params = None, options = None\<rparr>"

definition empty_channel :: channel_config where
  "empty_channel = \<lparr>prefetch = None, confirm = None\<rparr>"

definition empty_config :: config where
  "empty_config = \<lparr>connection = None, channel = None, queues = None, exchanges = None,
     bindings = None\<rparr>"

definition defaults_connection :: "connection_config \<Rightarrow> connection_config" where
  "defaults_connection c = c\<lparr>
     protocol := or_default ''amqp'' (protocol c),
     user := or_default ''guest'' (user c),
     password := or_default ''guest'' (password c),
     host := or_default ''localhost'' (host c),
     port := or_default 5672 (port c),
     vhost := or_default ''/'' (vhost c),
     params := (case params c of None \<Rightarrow> Some default_params
                | Some ps \<Rightarrow> Some (merge_params ps default_params)),
     options := or_default Null (options c)\<rparr>"

definition defaults_channel :: "channel_config \<Rightarrow> channel_config" where
  "defaults_channel c = c\<lparr>
     prefetch := or_default 1 (prefetch c),
     confirm := or_default True (confirm c)\<rparr>"

definition defaultsDeep :: "config \<Rightarrow> config" where
  "defaultsDeep c = c\<lparr>
     connection := Some (defaults_connection
        (case connection c of None \<Rightarrow> empty_connection | Some x \<Rightarrow> x)),
     channel := Some (defaults_channel
        (case channel c of None \<Rightarrow> empty_channel | Some x \<Rightarrow> x)),
     queues := or_default [] (queues c),
     exchanges := or_default [] (exchanges c),
     bindings := or_default [] (bindings c)\<rparr>"

text \<open>
  What the state machine reads from \<^verbatim>\<open>this.config\<close>. Every read happens after the
  constructor ran \<open>defaultsDeep\<close>, so the \<open>None\<close> branches (a \<^verbatim>\<open>TypeError\<close> in
  JavaScript for a missing object, a falsy \<^verbatim>\<open>undefined\<close> for a missing scalar) are
  never taken on a constructed manager.
\<close>

definition cfg_confirm :: "config \<Rightarrow> bool" where
  "cfg_confirm c = (case channel c of None \<Rightarrow> False
     | Some ch \<Rightarrow> (case confirm ch of None \<Rightarrow> False | Some b \<Rightarrow> b))"

definition cfg_prefetch :: "config \<Rightarrow> nat option" where
  "cfg_prefetch c = (case channel c of None \<Rightarrow> None | Some ch \<Rightarrow> prefetch ch)"

definition cfg_exchanges :: "config \<Rightarrow> exchange_decl list" where
  "cfg_exchanges c = (case exchanges c of None \<Rightarrow> [] | Some xs \<Rightarrow> xs)"

definition cfg_queues :: "config \<Rightarrow> queue_decl list" where
  "cfg_queues c = (case queues c of None \<Rightarrow> [] | Some xs \<Rightarrow> xs)"

definition cfg_bindings :: "config \<Rightarrow> binding_decl list" where
  "cfg_bindings c = (case bindings c of None \<Rightarrow> [] | Some xs \<Rightarrow> xs)"

section \<open>Program state\<close>

type_synonym conn = nat
type_synonym chan = nat

datatype fsm_state =
  S_uninitialized | S_idle | S_connect | S_assert | S_connected | S_reconnect | S_error | S_close

text \<open>\<^verbatim>\<open>this.memory\<close>: starts as \<^verbatim>\<open>{}\<close>, so each property starts \<^verbatim>\<open>undefined\<close>.\<close>

record memory =
  mem_connection :: "conn option"
  mem_channel :: "chan option"
  mem_reconnects :: "nat option"

text \<open>The inputs given to \<^verbatim>\<open>this.handle\<close>; only \<^verbatim>\<open>channel_error\<close> reads its argument.\<close>

datatype input = I_open | I_connection_error | I_error | I_channel_error string | I_channel_close

text \<open>The events the state machine emits with \<^verbatim>\<open>this.emit\<close>, with their payloads.\<close>

datatype fsm_event =
  Ev_ready memory | Ev_reconnect nat nat | Ev_error "string option" | Ev_close

fun event_name :: "fsm_event \<Rightarrow> string" where
  "event_name (Ev_ready m) = ''ready''"
| "event_name (Ev_reconnect n t) = ''reconnect''"
| "event_name (Ev_error e) = ''error''"
| "event_name Ev_close = ''close''"

text \<open>
  The listeners registered on the state machine: the three of the constructor (lines
  207-226; \<^verbatim>\<open>disconnect\<close> is registered for two events), and the per-call closures
  \<^verbatim>\<open>onReady\<close> (line 256) and \<^verbatim>\<open>onClosed\<close> (line 271), each tied to the promise of its call.
\<close>

datatype listener = On_ready | On_close | Disconnect | OnReady nat | OnClosed nat

datatype promise = Pending | Resolved "chan option" | Rejected string

text \<open>The two \<^verbatim>\<open>setTimeout\<close> callbacks: line 136 (with the captured \<^verbatim>\<open>reconnects\<close>) and line 250.\<close>

datatype timer_cb = ReconnectTimer nat | ChannelTimeout nat

text \<open>The phases of one \<^verbatim>\<open>assertTopology\<close> promise chain.\<close>

datatype phase = P_exchanges | P_queues | P_bindings | P_resolved | P_rejected

text \<open>The calls the program makes on the transport client, in the order it makes them.\<close>

datatype call =
    Amqp_connect
  | CreateChannel conn
  | CreateConfirmChannel conn
  | Prefetch chan "nat option"
  | AssertExchange chan exchange_decl
  | AssertQueue chan queue_decl
  | BindQueue chan binding_decl
  | Connection_close conn
  | Connection_removeAllListeners conn
  | Channel_removeAllListeners chan

text \<open>
  One record for the whole program: the manager's fields, the state machine's fields, the
  promises handed out, the timers of the event loop with a clock in milliseconds, and the
  transport client as the program sees it (operations in flight, handles that are open,
  listeners the program attached to them).
\<close>

record world =
  config :: config
  closed :: bool
  started :: bool
  cached_channel :: "chan option"
  public_events :: "string list"
  state :: fsm_state
  memory :: memory
  eventListeners :: "(string \<times> listener) list"
  emitted :: "fsm_event list"
  open_calls :: nat
  promises :: "promise list"
  now :: nat
  timers :: "(nat \<times> timer_cb) list"
  calls :: "call list"
  connecting :: nat
  creating :: "conn list"
  topology :: "chan \<Rightarrow> (phase \<times> nat) option"
  next_handle :: nat
  open_conns :: "conn list"
  open_chans :: "(chan \<times> conn) list"
  conn_listeners :: "(conn \<times> string) list"
  chan_listeners :: "(chan \<times> string) list"

section \<open>Promises and the state machine's event emitter\<close>

text \<open>A promise settles once: \<^verbatim>\<open>Promise.race\<close> keeps the first of resolve and reject.\<close>

definition settle :: "nat \<Rightarrow> promise \<Rightarrow> world \<Rightarrow> world" where
  "settle p v w =
     (if p < length (promises w) \<and> promises w ! p = Pending
      then w\<lparr>promises := (promises w)[p := v]\<rparr> else w)"

definition on :: "string \<Rightarrow> listener \<Rightarrow> world \<Rightarrow> world" where
  "on name l w = w\<lparr>eventListeners := eventListeners w @ [(name, l)]\<rparr>"

definition off :: "string \<Rightarrow> listener \<Rightarrow> world \<Rightarrow> world" where
  "off name l w = w\<lparr>eventListeners := filter (\<lambda>x. x \<noteq> (name, l)) (eventListeners w)\<rparr>"

text \<open>Lines 212-217.\<close>

definition disconnect :: "world \<Rightarrow> world" where
  "disconnect w =
     (if cached_channel w \<noteq> None
      then w\<lparr>cached_channel := None, public_events := public_events w @ [''disconnected'']\<rparr>
      else w)"

text \<open>
  What each listener does with the event it is registered for: lines 207-210, 219-222,
  224-226, 256-259 and 271-274.
\<close>

fun run_listener :: "listener \<Rightarrow> fsm_event \<Rightarrow> world \<Rightarrow> world" where
  "run_listener On_ready (Ev_ready m) w =
     w\<lparr>cached_channel := mem_channel m, public_events := public_events w @ [''connected'']\<rparr>"
| "run_listener On_close Ev_close w = disconnect (w\<lparr>closed := True\<rparr>)"
| "run_listener Disconnect (Ev_reconnect n t) w = disconnect w"
| "run_listener Disconnect (Ev_error e) w = disconnect w"
| "run_listener (OnReady p) (Ev_ready m) w =
     settle p (Resolved (mem_channel m)) (off ''ready'' (OnReady p) w)"
| "run_listener (OnClosed p) Ev_close w =
     settle p (Resolved None) (off ''close'' (OnClosed p) w)"
| "run_listener l ev w = w"

text \<open>
  machina's \<^verbatim>\<open>emit\<close> is synchronous: it calls the listeners registered for the event's
  name at the time of the call, in registration order.
\<close>

definition emit :: "fsm_event \<Rightarrow> world \<Rightarrow> world" where
  "emit ev w =
     fold (\<lambda>l. run_listener l ev)
       (map snd (filter (\<lambda>x. fst x = event_name ev) (eventListeners w)))
       (w\<lparr>emitted := emitted w @ [ev]\<rparr>)"

section \<open>The state machine\<close>

text \<open>Line 129: \<^verbatim>\<open>Math.min(Math.pow(2, reconnects) * 100, 60 * 1000)\<close>.\<close>

definition waitTimeMs :: "nat \<Rightarrow> nat" where
  "waitTimeMs reconnects = min (2 ^ reconnects * 100) (60 * 1000)"

text \<open>
  Line 105: \<^verbatim>\<open>/PRECONDITION-FAILED/i.test(error.message)\<close>, an unanchored search that
  ignores case. Without the \<^verbatim>\<open>u\<close> flag a character is compared through its upper-case
  form, and a character outside ASCII never equals an ASCII one.
\<close>

definition canonicalize :: "char \<Rightarrow> char" where
  "canonicalize c =
     (let n = (of_char c :: nat) in if 97 \<le> n \<and> n \<le> 122 then char_of (n - 32) else c)"

fun starts_with :: "string \<Rightarrow> string \<Rightarrow> bool" where
  "starts_with [] s = True"
| "starts_with (p # ps) [] = False"
| "starts_with (p # ps) (c # cs) = (p = canonicalize c \<and> starts_with ps cs)"

fun regex_search :: "string \<Rightarrow> string \<Rightarrow> bool" where
  "regex_search pat [] = starts_with pat []"
| "regex_search pat (c # cs) = (starts_with pat (c # cs) \<or> regex_search pat cs)"

definition precondition_failed :: "string \<Rightarrow> bool" where
  "precondition_failed message = regex_search ''PRECONDITION-FAILED'' message"

text \<open>
  What the program does to a handle. Closing a connection closes the channels opened on it.
  \<^verbatim>\<open>removeAllListeners\<close> drops every listener of the handle.
\<close>

definition connection_close :: "conn \<Rightarrow> world \<Rightarrow> world" where
  "connection_close c w = w\<lparr>
     calls := calls w @ [Connection_close c],
     open_conns := removeAll c (open_conns w),
     open_chans := filter (\<lambda>x. snd x \<noteq> c) (open_chans w)\<rparr>"

definition connection_removeAllListeners :: "conn \<Rightarrow> world \<Rightarrow> world" where
  "connection_removeAllListeners c w = w\<lparr>
     calls := calls w @ [Connection_removeAllListeners c],
     conn_listeners := filter (\<lambda>x. fst x \<noteq> c) (conn_listeners w)\<rparr>"

definition channel_removeAllListeners :: "chan \<Rightarrow> world \<Rightarrow> world" where
  "channel_removeAllListeners ch w = w\<lparr>
     calls := calls w @ [Channel_removeAllListeners ch],
     chan_listeners := filter (\<lambda>x. fst x \<noteq> ch) (chan_listeners w)\<rparr>"

text \<open>Lines 169-177.\<close>

definition cleanHandlers :: "world \<Rightarrow> world" where
  "cleanHandlers w =
     (let w1 = (case mem_connection (memory w) of None \<Rightarrow> w
                | Some c \<Rightarrow> connection_removeAllListeners c w)
      in case mem_channel (memory w1) of None \<Rightarrow> w1
         | Some ch \<Rightarrow> channel_removeAllListeners ch w1)"

text \<open>
  The \<^verbatim>\<open>_onEnter\<close> of each state (lines 42-61, 70-97, 113-115, 127-143, 146-149, 152-160).
  \<^verbatim>\<open>connect\<close> and \<^verbatim>\<open>assert\<close> start an operation of the transport client and return; the
  callbacks of its promise are \<open>connect_resolved\<close>, \<open>connect_rejected\<close>,
  \<open>createChannel_resolved\<close> and \<open>createChannel_rejected\<close> below. The URL that
  \<^verbatim>\<open>connect\<close> builds is not modelled. \<^verbatim>\<open>reconnect\<close> registers its timer at
  \<open>now + waitTimeMs\<close>. No call site passes an argument to \<^verbatim>\<open>transition\<close>, so the
  \<^verbatim>\<open>error\<close> that the \<^verbatim>\<open>error\<close> state would emit is \<^verbatim>\<open>undefined\<close>.
\<close>

fun onEnter :: "fsm_state \<Rightarrow> world \<Rightarrow> world" where
  "onEnter S_connect w =
     w\<lparr>calls := calls w @ [Amqp_connect], connecting := connecting w + 1\<rparr>"
| "onEnter S_assert w =
     (case mem_connection (memory w) of None \<Rightarrow> w
      | Some c \<Rightarrow> w\<lparr>
          calls := calls w @ [if cfg_confirm (config w) then CreateConfirmChannel c
                              else CreateChannel c],
          creating := creating w @ [c]\<rparr>)"
| "onEnter S_connected w = emit (Ev_ready (memory w)) w"
| "onEnter S_reconnect w =
     (let reconnects = (case mem_reconnects (memory w) of None \<Rightarrow> 0 | Some n \<Rightarrow> n) + 1;
          w1 = emit (Ev_reconnect reconnects (waitTimeMs reconnects)) w
      in w1\<lparr>timers := timers w1 @
            [(now w1 + waitTimeMs reconnects, ReconnectTimer reconnects)]\<rparr>)"
| "onEnter S_error w = emit (Ev_error None) (cleanHandlers w)"
| "onEnter S_close w =
     (let w1 = cleanHandlers w;
          w2 = (case mem_connection (memory w1) of None \<Rightarrow> w1
                | Some c \<Rightarrow> connection_close c w1)
      in emit Ev_close w2)"
| "onEnter S_uninitialized w = w"
| "onEnter S_idle w = w"

text \<open>
  machina's \<^verbatim>\<open>transition\<close>: nothing happens when the target is the current state;
  otherwise the state is set and the target's \<^verbatim>\<open>_onEnter\<close> runs, synchronously. No state
  here has an \<^verbatim>\<open>_onExit\<close>.
\<close>

definition transition :: "fsm_state \<Rightarrow> world \<Rightarrow> world" where
  "transition newState w =
     (if newState = state w then w else onEnter newState (w\<lparr>state := newState\<rparr>))"

text \<open>
  The input handlers of each state (lines 36-40, 62-67, 98-110, 116-124). A state without a
  handler for an input (and without \<^verbatim>\<open>'*'\<close>) leaves the program untouched: machina only
  emits its own \<^verbatim>\<open>nohandler\<close> event, which nothing here listens to.
\<close>

fun handlers :: "fsm_state \<Rightarrow> input \<Rightarrow> world \<Rightarrow> world" where
  "handlers S_idle I_open w = transition S_connect w"
| "handlers S_connect I_connection_error w = transition S_reconnect w"
| "handlers S_connect I_error w = transition S_reconnect w"
| "handlers S_assert I_connection_error w = transition S_reconnect w"
| "handlers S_assert I_channel_close w = transition S_reconnect w"
| "handlers S_assert (I_channel_error message) w =
     (if precondition_failed message then emit (Ev_error (Some message)) w
      else transition S_reconnect w)"
| "handlers S_connected (I_channel_error message) w = transition S_reconnect w"
| "handlers S_connected I_connection_error w = transition S_reconnect w"
| "handlers S_connected I_channel_close w = transition S_reconnect w"
| "handlers s i w = w"

text \<open>
  machina's \<^verbatim>\<open>handle\<close>. In \<^verbatim>\<open>uninitialized\<close> the \<^verbatim>\<open>'*'\<close> handler (lines 32-34) runs
  \<^verbatim>\<open>deferAndTransition('idle')\<close>: the input is queued, \<^verbatim>\<open>idle\<close> is entered, and the queue
  is replayed there at once. No other handler defers, so the queue is empty at every
  other transition.
\<close>

definition handle :: "input \<Rightarrow> world \<Rightarrow> world" where
  "handle i w =
     (if state w = S_uninitialized then handlers S_idle i (transition S_idle w)
      else handlers (state w) i w)"

text \<open>Lines 163-168. \<open>open_calls\<close> counts the calls of \<^verbatim>\<open>open\<close>; the program never reads it.\<close>

definition fsm_open :: "world \<Rightarrow> world" where
  "fsm_open w = handle I_open (w\<lparr>open_calls := open_calls w + 1\<rparr>)"

definition fsm_close :: "world \<Rightarrow> world" where
  "fsm_close w = transition S_close w"

section \<open>Topology assertion\<close>

text \<open>
  \<^verbatim>\<open>assertTopology\<close> (lines 8-21). Each of the three closures issues all its declarations
  at once (\<^verbatim>\<open>map\<close>) and waits for them with \<^verbatim>\<open>Promise.all\<close>; \<open>topology w ch\<close> holds the
  phase of the chain of channel \<open>ch\<close> and how many declarations of the phase are
  outstanding. \<^verbatim>\<open>Promise.all\<close> of no promise is fulfilled without waiting, which moves to
  the next closure within the same turn of the event loop. When the chain is fulfilled its
  \<^verbatim>\<open>then\<close> (lines 91-93) runs \<^verbatim>\<open>this.transition('connected')\<close>.
\<close>

definition topology_resolved :: "chan \<Rightarrow> world \<Rightarrow> world" where
  "topology_resolved ch w =
     transition S_connected (w\<lparr>topology := (topology w)(ch \<mapsto> (P_resolved, 0))\<rparr>)"

definition bindQueues :: "chan \<Rightarrow> world \<Rightarrow> world" where
  "bindQueues ch w =
     (let bs = cfg_bindings (config w);
          w1 = w\<lparr>calls := calls w @ map (BindQueue ch) bs\<rparr>
      in if bs = [] then topology_resolved ch w1
         else w1\<lparr>topology := (topology w1)(ch \<mapsto> (P_bindings, length bs))\<rparr>)"

definition assertQueues :: "chan \<Rightarrow> world \<Rightarrow> world" where
  "assertQueues ch w =
     (let qs = cfg_queues (config w);
          w1 = w\<lparr>calls := calls w @ map (AssertQueue ch) qs\<rparr>
      in if qs = [] then bindQueues ch w1
         else w1\<lparr>topology := (topology w1)(ch \<mapsto> (P_queues, length qs))\<rparr>)"

definition assertExchanges :: "chan \<Rightarrow> world \<Rightarrow> world" where
  "assertExchanges ch w =
     (let es = cfg_exchanges (config w);
          w1 = w\<lparr>calls := calls w @ map (AssertExchange ch) es\<rparr>
      in if es = [] then assertQueues ch w1
         else w1\<lparr>topology := (topology w1)(ch \<mapsto> (P_exchanges, length es))\<rparr>)"

definition assertTopology :: "chan \<Rightarrow> world \<Rightarrow> world" where
  "assertTopology ch w = assertExchanges ch w"

text \<open>One outstanding declaration of channel \<open>ch\<close> is fulfilled.\<close>

definition declare_resolved :: "chan \<Rightarrow> world \<Rightarrow> world" where
  "declare_resolved ch w =
     (case topology w ch of
        Some (P_exchanges, n) \<Rightarrow>
          (if n \<le> 1 then assertQueues ch w
           else w\<lparr>topology := (topology w)(ch \<mapsto> (P_exchanges, n - 1))\<rparr>)
      | Some (P_queues, n) \<Rightarrow>
          (if n \<le> 1 then bindQueues ch w
           else w\<lparr>topology := (topology w)(ch \<mapsto> (P_queues, n - 1))\<rparr>)
      | Some (P_bindings, n) \<Rightarrow>
          (if n \<le> 1 then topology_resolved ch w
           else w\<lparr>topology := (topology w)(ch \<mapsto> (P_bindings, n - 1))\<rparr>)
      | _ \<Rightarrow> w)"

text \<open>
  One outstanding declaration is rejected: \<^verbatim>\<open>Promise.all\<close> rejects, the later closures
  never run, and the chain has no rejection handler (the second argument of \<^verbatim>\<open>then\<close>
  at line 94 belongs to \<^verbatim>\<open>createChannel\<close>), so the state machine hears nothing of it.
\<close>

definition declare_rejected :: "chan \<Rightarrow> world \<Rightarrow> world" where
  "declare_rejected ch w =
     (case topology w ch of
        Some (P_exchanges, n) \<Rightarrow> w\<lparr>topology := (topology w)(ch \<mapsto> (P_rejected, 0))\<rparr>
      | Some (P_queues, n) \<Rightarrow> w\<lparr>topology := (topology w)(ch \<mapsto> (P_rejected, 0))\<rparr>
      | Some (P_bindings, n) \<Rightarrow> w\<lparr>topology := (topology w)(ch \<mapsto> (P_rejected, 0))\<rparr>
      | _ \<Rightarrow> w)"

section \<open>Completions of the transport client\<close>

text \<open>
  Lines 47-60. \<^verbatim>\<open>Amqp.connect\<close> is fulfilled with a fresh, open connection handle, or
  rejected. Such a completion exists only for a call in flight.
\<close>

definition connect_resolved :: "world \<Rightarrow> world" where
  "connect_resolved w =
     (if connecting w = 0 then w
      else
        let c = next_handle w;
            w1 = w\<lparr>connecting := connecting w - 1, next_handle := c + 1,
                   open_conns := open_conns w @ [c]\<rparr>;
            w2 = w1\<lparr>conn_listeners := conn_listeners w1 @ [(c, ''error'')]\<rparr>;
            w3 = w2\<lparr>memory := (memory w2)\<lparr>mem_connection := Some c,
                                             mem_reconnects := Some 0\<rparr>\<rparr>
        in transition S_assert w3)"

definition connect_rejected :: "world \<Rightarrow> world" where
  "connect_rejected w =
     (if connecting w = 0 then w
      else handle I_error (w\<lparr>connecting := connecting w - 1\<rparr>))"

text \<open>
  Lines 75-96. \<^verbatim>\<open>createChannel\<close> (or \<^verbatim>\<open>createConfirmChannel\<close>) called on connection \<open>c\<close>
  is fulfilled with a fresh channel, which needs \<open>c\<close> to be open, or rejected.
\<close>

definition createChannel_resolved :: "conn \<Rightarrow> world \<Rightarrow> world" where
  "createChannel_resolved c w =
     (if c \<in> set (creating w) \<and> c \<in> set (open_conns w) then
        let ch = next_handle w;
            w1 = w\<lparr>creating := remove1 c (creating w), next_handle := ch + 1,
                   open_chans := open_chans w @ [(ch, c)]\<rparr>;
            w2 = w1\<lparr>calls := calls w1 @ [Prefetch ch (cfg_prefetch (config w1))]\<rparr>;
            w3 = w2\<lparr>memory := (memory w2)\<lparr>mem_channel := Some ch\<rparr>\<rparr>;
            w4 = w3\<lparr>chan_listeners := chan_listeners w3 @ [(ch, ''error''), (ch, ''close'')]\<rparr>
        in assertTopology ch w4
      else w)"

definition createChannel_rejected :: "conn \<Rightarrow> string \<Rightarrow> world \<Rightarrow> world" where
  "createChannel_rejected c message w =
     (if c \<in> set (creating w)
      then handle (I_channel_error message) (w\<lparr>creating := remove1 c (creating w)\<rparr>)
      else w)"

section \<open>Events of the handles\<close>

text \<open>
  A handle that emits \<^verbatim>\<open>error\<close> or \<^verbatim>\<open>close\<close> is closed from then on (and a connection's
  channels with it). The program hears the event through the listeners it attached: line
  48 for the connection, where \<^verbatim>\<open>error\<close> is the only event listened to, and lines 82-88
  for the channel. An event without a listener leaves the program untouched.
\<close>

definition handle_closed_conn :: "conn \<Rightarrow> world \<Rightarrow> world" where
  "handle_closed_conn c w = w\<lparr>
     open_conns := removeAll c (open_conns w),
     open_chans := filter (\<lambda>x. snd x \<noteq> c) (open_chans w)\<rparr>"

definition handle_closed_chan :: "chan \<Rightarrow> world \<Rightarrow> world" where
  "handle_closed_chan ch w = w\<lparr>open_chans := filter (\<lambda>x. fst x \<noteq> ch) (open_chans w)\<rparr>"

definition connection_emits :: "conn \<Rightarrow> string \<Rightarrow> world \<Rightarrow> world" where
  "connection_emits c name w =
     (let w1 = handle_closed_conn c w
      in if (c, name) \<in> set (conn_listeners w1) \<and> name = ''error''
         then handle I_connection_error w1 else w1)"

definition channel_emits_error :: "chan \<Rightarrow> string \<Rightarrow> world \<Rightarrow> world" where
  "channel_emits_error ch message w =
     (let w1 = handle_closed_chan ch w
      in if (ch, ''error'') \<in> set (chan_listeners w1)
         then handle (I_channel_error message) w1 else w1)"

definition channel_emits_close :: "chan \<Rightarrow> world \<Rightarrow> world" where
  "channel_emits_close ch w =
     (let w1 = handle_closed_chan ch w
      in if (ch, ''close'') \<in> set (chan_listeners w1)
         then handle I_channel_close w1 else w1)"

section \<open>Timers\<close>

text \<open>Lines 136-142 and 250-252.\<close>

fun run_timer :: "timer_cb \<Rightarrow> world \<Rightarrow> world" where
  "run_timer (ReconnectTimer reconnects) w =
     transition S_connect (w\<lparr>memory := (memory w)\<lparr>mem_reconnects := Some reconnects\<rparr>\<rparr>)"
| "run_timer (ChannelTimeout p) w = settle p (Rejected ''Channel Timeout'') w"

definition fire :: "nat \<times> timer_cb \<Rightarrow> world \<Rightarrow> world" where
  "fire t w =
     (if t \<in> set (timers w)
      then run_timer (snd t) (w\<lparr>now := max (now w) (fst t), timers := remove1 t (timers w)\<rparr>)
      else w)"

text \<open>
  \<open>dt\<close> milliseconds pass: the timers due by then fire in the order of their due times
  (registration order among equals). No timer callback registers a timer in the same
  turn, so the timers to fire are those pending at the start.
\<close>

definition elapse :: "nat \<Rightarrow> world \<Rightarrow> world" where
  "elapse dt w =
     (let target = now w + dt;
          due = sort_key fst (filter (\<lambda>t. fst t \<le> target) (timers w))
      in (fold fire due w)\<lparr>now := target\<rparr>)"

section \<open>The manager\<close>

text \<open>
  The constructor (lines 180-229). \<^verbatim>\<open>_.defaultsDeep\<close> writes into the object the caller
  passed and returns it, so \<^verbatim>\<open>this.config\<close> and the caller's variable are one object:
  \<open>config w\<close> is its content. \<^verbatim>\<open>this.closed\<close> and \<^verbatim>\<open>this._channel\<close> start
  \<^verbatim>\<open>undefined\<close>, which is falsy.
\<close>

definition AmqpManager :: "config \<Rightarrow> world" where
  "AmqpManager cfg = \<lparr>
     config = defaultsDeep cfg,
     closed = False,
     started = False,
     cached_channel = None,
     public_events = [],
     state = S_uninitialized,
     memory = \<lparr>mem_connection = None, mem_channel = None, mem_reconnects = None\<rparr>,
     eventListeners = [(''ready'', On_ready), (''close'', On_close),
                       (''reconnect'', Disconnect), (''error'', Disconnect)],
     emitted = [],
     open_calls = 0,
     promises = [],
     now = 0,
     timers = [],
     calls = [],
     connecting = 0,
     creating = [],
     topology = Map.empty,
     next_handle = 0,
     open_conns = [],
     open_chans = [],
     conn_listeners = [],
     chan_listeners = []\<rparr>"

text \<open>
  \<^verbatim>\<open>AmqpManager.prototype.channel\<close> (lines 233-265). The promise it returns is the one
  appended to \<open>promises\<close>, at index \<open>length (promises w)\<close>.
\<close>

definition channel_call :: "world \<Rightarrow> world" where
  "channel_call w =
     (let p = length (promises w) in
      if closed w then w\<lparr>promises := promises w @ [Rejected ''Connection closed'']\<rparr>
      else case cached_channel w of
        Some ch \<Rightarrow> w\<lparr>promises := promises w @ [Resolved (Some ch)]\<rparr>
      | None \<Rightarrow>
          let w1 = (if started w then w else fsm_open (w\<lparr>started := True\<rparr>));
              w2 = w1\<lparr>promises := promises w1 @ [Pending],
                     timers := timers w1 @ [(now w1 + 2000, ChannelTimeout p)]\<rparr>
          in on ''ready'' (OnReady p) w2)"

text \<open>
  \<^verbatim>\<open>AmqpManager.prototype.close\<close> (lines 267-278): the executor calls \<^verbatim>\<open>this.fsm.close()\<close>
  first and registers \<^verbatim>\<open>onClosed\<close> afterwards.
\<close>

definition close_call :: "world \<Rightarrow> world" where
  "close_call w =
     (let p = length (promises w);
          w1 = fsm_close (w\<lparr>promises := promises w @ [Pending]\<rparr>)
      in on ''close'' (OnClosed p) w1)"

section \<open>Runs\<close>

text \<open>
  Everything that can happen to the program: a call of its two methods, a completion of
  an operation of the transport client, an event of a handle, time passing.
\<close>

datatype event =
    Call_channel
  | Call_close
  | Connect_ok
  | Connect_fail
  | CreateChannel_ok conn
  | CreateChannel_fail conn string
  | Declare_ok chan
  | Declare_fail chan
  | Connection_error conn
  | Connection_closed conn
  | Channel_error chan string
  | Channel_closed chan
  | Elapse nat

fun step :: "world \<Rightarrow> event \<Rightarrow> world" where
  "step w Call_channel = channel_call w"
| "step w Call_close = close_call w"
| "step w Connect_ok = connect_resolved w"
| "step w Connect_fail = connect_rejected w"
| "step w (CreateChannel_ok c) = createChannel_resolved c w"
| "step w (CreateChannel_fail c message) = createChannel_rejected c message w"
| "step w (Declare_ok ch) = declare_resolved ch w"
| "step w (Declare_fail ch) = declare_rejected ch w"
| "step w (Connection_error c) = connection_emits c ''error'' w"
| "step w (Connection_closed c) = connection_emits c ''close'' w"
| "step w (Channel_error ch message) = channel_emits_error ch message w"
| "step w (Channel_closed ch) = channel_emits_close ch w"
| "step w (Elapse dt) = elapse dt w"

definition run :: "world \<Rightarrow> event list \<Rightarrow> world" where
  "run w es = foldl step w es"

section \<open>An example configuration\<close>

text \<open>One topic exchange, one queue, and the queue bound to the exchange.\<close>

definition example_config :: config where
  "example_config = empty_config\<lparr>
     exchanges := Some [Exchange ''E'' ''topic'' ''''],
     queues := Some [Queue ''Q'' ''''],
     bindings := Some [Binding ''Q'' ''E'' ''events.#'']\<rparr>"

section \<open>Observing \<^verbatim>\<open>ready\<close>\<close>

fun is_ready :: "fsm_event \<Rightarrow> bool" where
  "is_ready (Ev_ready m) = True"
| "is_ready ev = False"

text \<open>The \<^verbatim>\<open>ready\<close> events emitted so far.\<close>

definition readies :: "world \<Rightarrow> fsm_event list" where
  "readies w = filter is_ready (emitted w)"

section \<open>What listeners and \<open>emit\<close> leave alone\<close>

lemma fold_frame:
  assumes "\<And>x s. f (g x s) = f s"
  shows "f (fold g xs s) = f s"
  by (induction xs arbitrary: s) (simp_all add: assms)

lemma run_listener_frame [simp]:
  "config (run_listener l ev w) = config w"
  "started (run_listener l ev w) = started w"
  "state (run_listener l ev w) = state w"
  "memory (run_listener l ev w) = memory w"
  "emitted (run_listener l ev w) = emitted w"
  "open_calls (run_listener l ev w) = open_calls w"
  "now (run_listener l ev w) = now w"
  "timers (run_listener l ev w) = timers w"
  "calls (run_listener l ev w) = calls w"
  "connecting (run_listener l ev w) = connecting w"
  "creating (run_listener l ev w) = creating w"
  "topology (run_listener l ev w) = topology w"
  "next_handle (run_listener l ev w) = next_handle w"
  "open_conns (run_listener l ev w) = open_conns w"
  "open_chans (run_listener l ev w) = open_chans w"
  "conn_listeners (run_listener l ev w) = conn_listeners w"
  "chan_listeners (run_listener l ev w) = chan_listeners w"
  by (cases l; cases ev; simp add: settle_def off_def disconnect_def)+

lemma emit_frame [simp]:
  "config (emit ev w) = config w"
  "started (emit ev w) = started w"
  "state (emit ev w) = state w"
  "memory (emit ev w) = memory w"
  "open_calls (emit ev w) = open_calls w"
  "now (emit ev w) = now w"
  "timers (emit ev w) = timers w"
  "calls (emit ev w) = calls w"
  "connecting (emit ev w) = connecting w"
  "creating (emit ev w) = creating w"
  "topology (emit ev w) = topology w"
  "next_handle (emit ev w) = next_handle w"
  "open_conns (emit ev w) = open_conns w"
  "open_chans (emit ev w) = open_chans w"
  "conn_listeners (emit ev w) = conn_listeners w"
  "chan_listeners (emit ev w) = chan_listeners w"
  by (simp_all add: emit_def fold_frame [where f = config] fold_frame [where f = started]
      fold_frame [where f = state] fold_frame [where f = memory] fold_frame [where f = open_calls]
      fold_frame [where f = now] fold_frame [where f = timers] fold_frame [where f = calls]
      fold_frame [where f = connecting] fold_frame [where f = creating]
      fold_frame [where f = topology] fold_frame [where f = next_handle]
      fold_frame [where f = open_conns] fold_frame [where f = open_chans]
      fold_frame [where f = conn_listeners] fold_frame [where f = chan_listeners])

lemma emitted_emit [simp]: "emitted (emit ev w) = emitted w @ [ev]"
  by (simp add: emit_def fold_frame [where f = emitted])

text \<open>Unfolding every operation evaluates a run on a concrete world.\<close>

lemmas program_defs =
  run_def AmqpManager_def channel_call_def close_call_def fsm_open_def fsm_close_def
  handle_def transition_def emit_def on_def off_def settle_def disconnect_def
  connect_resolved_def connect_rejected_def createChannel_resolved_def
  createChannel_rejected_def assertTopology_def assertExchanges_def assertQueues_def
  bindQueues_def topology_resolved_def declare_resolved_def declare_rejected_def
  connection_emits_def channel_emits_error_def channel_emits_close_def
  handle_closed_conn_def handle_closed_chan_def elapse_def fire_def waitTimeMs_def
  cleanHandlers_def connection_close_def connection_removeAllListeners_def
  channel_removeAllListeners_def defaultsDeep_def empty_config_def or_default_def
  cfg_exchanges_def cfg_queues_def cfg_bindings_def cfg_confirm_def cfg_prefetch_def
  defaults_channel_def defaults_connection_def empty_channel_def empty_connection_def
  precondition_failed_def canonicalize_def Let_def

section \<open>Backoff delay\<close>

lemma waitTimeMs_cap: "waitTimeMs N = 60000 \<longleftrightarrow> 10 \<le> N"
proof (cases "10 \<le> N")
  case True
  then have "(2::nat) ^ 10 \<le> 2 ^ N"
    by (intro power_increasing) simp_all
  then show ?thesis using True by (simp add: waitTimeMs_def)
next
  case False
  then have "N \<le> 9" by simp
  then have "(2::nat) ^ N \<le> 2 ^ 9"
    by (intro power_increasing) simp_all
  then show ?thesis using False by (simp add: waitTimeMs_def)
qed

lemma waitTimeMs_doubles: "N < 9 \<Longrightarrow> waitTimeMs (N + 1) = 2 * waitTimeMs N"
proof -
  assume "N < 9"
  then have "N + 1 \<le> 9" by simp
  then have "(2::nat) ^ (N + 1) \<le> 2 ^ 9"
    by (intro power_increasing) simp_all
  then show ?thesis by (simp add: waitTimeMs_def)
qed

text \<open>
  Claim C5. Entering \<^verbatim>\<open>reconnect\<close> with the stored counter \<open>r\<close> (0 when unset) is reconnect
  attempt \<open>N = r + 1\<close>, so \<open>N\<close> ranges over every number from 1. The timer that leads to
  the next connect attempt is registered \<open>min (2 ^ N * 100) 60000\<close> milliseconds ahead,
  and the \<^verbatim>\<open>reconnect\<close> event carries \<open>N\<close> and that delay. The delay is the cap of one
  minute exactly from \<open>N = 10\<close> on, and doubles from one attempt to the next below it.
  JavaScript computes the delay in double precision, which is exact for these values
  (\<^verbatim>\<open>Math.pow\<close> overflows to \<^verbatim>\<open>Infinity\<close> only far above the cap, where \<^verbatim>\<open>Math.min\<close> still
  yields 60000), so natural numbers model it.
\<close>

theorem reconnect_backoff_delay:
  assumes "state w \<noteq> S_reconnect"
    and "N = (case mem_reconnects (memory w) of None \<Rightarrow> 0 | Some n \<Rightarrow> n) + 1"
  shows "1 \<le> N
    \<and> timers (transition S_reconnect w) =
        timers w @ [(now w + min (2 ^ N * 100) 60000, ReconnectTimer N)]
    \<and> emitted (transition S_reconnect w) =
        emitted w @ [Ev_reconnect N (min (2 ^ N * 100) 60000)]
    \<and> (min (2 ^ N * 100) 60000 = (60000::nat) \<longleftrightarrow> 10 \<le> N)
    \<and> (N < 9 \<longrightarrow> min (2 ^ (N + 1) * 100) (60000::nat) = 2 * min (2 ^ N * 100) 60000)"
proof -
  have w: "waitTimeMs N = min (2 ^ N * 100) 60000" for N
    by (simp add: waitTimeMs_def)
  have "timers (transition S_reconnect w) =
        timers w @ [(now w + waitTimeMs N, ReconnectTimer N)]"
    using assms by (simp add: transition_def Let_def)
  moreover have "emitted (transition S_reconnect w) =
        emitted w @ [Ev_reconnect N (waitTimeMs N)]"
    using assms by (simp add: transition_def Let_def)
  moreover have "N < 9 \<longrightarrow> waitTimeMs (N + 1) = 2 * waitTimeMs N"
    using waitTimeMs_doubles by blast
  ultimately show ?thesis
    using assms(2) waitTimeMs_cap [of N] by (simp only: w) simp
qed

theorem reconnect_backoff_delay_witness:
  "timers (transition S_reconnect (AmqpManager empty_config)) = [(200, ReconnectTimer 1)]
   \<and> emitted (transition S_reconnect (AmqpManager empty_config)) = [Ev_reconnect 1 200]"
  using reconnect_backoff_delay [of "AmqpManager empty_config" 1]
  by (simp add: AmqpManager_def)

section \<open>Runs in which the state machine leaks, resumes or stalls\<close>

text \<open>
  Claim C1 says that at most one connection handle is open at any instant and that
  entering \<^verbatim>\<open>reconnect\<close> first detaches the listeners of the live handles and closes
  them. The \<^verbatim>\<open>_onEnter\<close> of \<^verbatim>\<open>reconnect\<close> (lines 127-143) does neither. In this run the
  manager is connected on connection 0 with channel 1, the channel fails, and the machine
  enters \<^verbatim>\<open>reconnect\<close>: connection 0 stays open with its listener attached and is never
  asked to close. After the backoff the next connect succeeds, and connections 0 and 2
  are open together.
\<close>

theorem reconnect_keeps_old_connection_open:
  "(let w = run (AmqpManager empty_config)
              [Call_channel, Connect_ok, CreateChannel_ok 0, Channel_error 1 ''boom'']
    in state w = S_reconnect \<and> open_conns w = [0] \<and> conn_listeners w = [(0, ''error'')]
       \<and> calls w = [Amqp_connect, CreateConfirmChannel 0, Prefetch 1 (Some 1)])
   \<and> (let w = run (AmqpManager empty_config)
              [Call_channel, Connect_ok, CreateChannel_ok 0, Channel_error 1 ''boom'',
               Elapse 200, Connect_ok]
      in open_conns w = [0, 2] \<and> conn_listeners w = [(0, ''error''), (2, ''error'')]
         \<and> Connection_close 0 \<notin> set (calls w))"
  by (simp add: program_defs)

text \<open>
  Claim C2 says that after \<^verbatim>\<open>close()\<close> the machine never goes back to \<^verbatim>\<open>connect\<close>. The
  timer callback of \<^verbatim>\<open>reconnect\<close> (lines 136-142, under the comment
  \<^verbatim>\<open>TODO: Don't transition to connect if stopped\<close>) transitions without looking at
  anything. In this run the first connect fails, \<^verbatim>\<open>close()\<close> is called during the backoff
  and the machine is in \<^verbatim>\<open>close\<close> with the manager marked closed; when the 200 ms have
  passed the machine is in \<^verbatim>\<open>connect\<close> again with a second \<^verbatim>\<open>Amqp.connect\<close> in flight.
\<close>

theorem close_does_not_cancel_reconnect:
  "(let w = run (AmqpManager empty_config) [Call_channel, Connect_fail, Call_close]
    in state w = S_close \<and> closed w \<and> emitted w = [Ev_reconnect 1 200, Ev_close]
       \<and> (200, ReconnectTimer 1) \<in> set (timers w) \<and> connecting w = 0)
   \<and> (let w = run (AmqpManager empty_config)
              [Call_channel, Connect_fail, Call_close, Elapse 200]
      in state w = S_connect \<and> closed w \<and> connecting w = 1
         \<and> calls w = [Amqp_connect, Amqp_connect])"
  by (simp add: program_defs)

text \<open>
  Claim C3 says that a precondition failure during topology assertion moves the machine
  to the \<^verbatim>\<open>error\<close> state and never leads to a reconnect. The handler (lines 104-110)
  emits the \<^verbatim>\<open>error\<close> event and returns: the machine stays in \<^verbatim>\<open>assert\<close>, the \<^verbatim>\<open>error\<close>
  state (lines 145-150) is entered from nowhere, and the listeners stay attached. The
  \<^verbatim>\<open>close\<close> event with which the failed channel ends is then handled in \<^verbatim>\<open>assert\<close> and
  starts a reconnect.
\<close>

theorem precondition_failure_stays_in_assert:
  "(let w = run (AmqpManager example_config)
              [Call_channel, Connect_ok, CreateChannel_ok 0,
               Channel_error 1 ''Channel closed by server: 406 (PRECONDITION-FAILED)'']
    in state w = S_assert
       \<and> emitted w = [Ev_error (Some ''Channel closed by server: 406 (PRECONDITION-FAILED)'')]
       \<and> chan_listeners w = [(1, ''error''), (1, ''close'')]
       \<and> conn_listeners w = [(0, ''error'')])
   \<and> (let w = run (AmqpManager example_config)
              [Call_channel, Connect_ok, CreateChannel_ok 0,
               Channel_error 1 ''Channel closed by server: 406 (PRECONDITION-FAILED)'',
               Channel_closed 1]
      in state w = S_reconnect
         \<and> emitted w = [Ev_error (Some ''Channel closed by server: 406 (PRECONDITION-FAILED)''),
                         Ev_reconnect 1 200]
         \<and> timers w = [(2000, ChannelTimeout 0), (200, ReconnectTimer 1)])"
  by (simp add: program_defs example_config_def)

text \<open>
  Claim C8 says that a successful connect registers an \<^verbatim>\<open>error\<close> and a \<^verbatim>\<open>close\<close> listener
  on the connection, so that either event leads from \<^verbatim>\<open>connected\<close> to \<^verbatim>\<open>reconnect\<close>. Line
  48 registers the \<^verbatim>\<open>error\<close> listener only, and \<^verbatim>\<open>connected\<close> has no handler for a closed
  connection. In this run the connection closes while the manager is connected: the
  machine stays in \<^verbatim>\<open>connected\<close>, no reconnect is scheduled, and the manager keeps the
  channel of the closed connection in its cache. The same run with an \<^verbatim>\<open>error\<close> event
  instead does reconnect.
\<close>

theorem connection_close_event_is_not_heard:
  "(let w = run (AmqpManager empty_config) [Call_channel, Connect_ok]
    in conn_listeners w = [(0, ''error'')])
   \<and> (let w = run (AmqpManager empty_config)
              [Call_channel, Connect_ok, CreateChannel_ok 0, Connection_closed 0]
      in state w = S_connected \<and> open_conns w = [] \<and> cached_channel w = Some 1
         \<and> timers w = [(2000, ChannelTimeout 0)]
         \<and> emitted w = [Ev_ready \<lparr>mem_connection = Some 0, mem_channel = Some 1,
                                    mem_reconnects = Some 0\<rparr>])
   \<and> (let w = run (AmqpManager empty_config)
              [Call_channel, Connect_ok, CreateChannel_ok 0, Connection_error 0]
      in state w = S_reconnect)"
  by (simp add: program_defs)

text \<open>
  Claim C9 says that the promise of the manager's \<^verbatim>\<open>close()\<close> resolves once the machine
  is closed, also for a repeated call. The executor (lines 268-277) calls
  \<^verbatim>\<open>this.fsm.close()\<close>, which emits \<^verbatim>\<open>close\<close> before it returns, and registers \<^verbatim>\<open>onClosed\<close>
  only afterwards; a second call finds the machine in \<^verbatim>\<open>close\<close> already, where
  \<^verbatim>\<open>transition('close')\<close> does nothing. In these runs the machine reaches \<^verbatim>\<open>close\<close> and
  the promises of \<^verbatim>\<open>close()\<close> are still pending, however much time passes.
\<close>

theorem close_promise_stays_pending:
  "(let w = run (AmqpManager empty_config) [Call_close]
    in state w = S_close \<and> emitted w = [Ev_close] \<and> promises w = [Pending]
       \<and> eventListeners w = [(''ready'', On_ready), (''close'', On_close),
            (''reconnect'', Disconnect), (''error'', Disconnect), (''close'', OnClosed 0)])
   \<and> (let w = run (AmqpManager empty_config) [Call_close, Call_close, Elapse 100000]
      in state w = S_close \<and> emitted w = [Ev_close] \<and> promises w = [Pending, Pending])
   \<and> (let w = run (AmqpManager empty_config)
              [Call_channel, Connect_ok, CreateChannel_ok 0, Call_close, Elapse 100000]
      in state w = S_close \<and> open_conns w = [] \<and> promises w = [Resolved (Some 1), Pending])"
  by (simp add: program_defs)

section \<open>What each operation leaves alone\<close>

lemma cleanHandlers_frame [simp]:
  "config (cleanHandlers w) = config w"
  "started (cleanHandlers w) = started w"
  "open_calls (cleanHandlers w) = open_calls w"
  "memory (cleanHandlers w) = memory w"
  "state (cleanHandlers w) = state w"
  "emitted (cleanHandlers w) = emitted w"
  "eventListeners (cleanHandlers w) = eventListeners w"
  "promises (cleanHandlers w) = promises w"
  "timers (cleanHandlers w) = timers w"
  by (simp_all add: cleanHandlers_def connection_removeAllListeners_def
      channel_removeAllListeners_def Let_def split: option.splits)

lemma onEnter_frame [simp]:
  "config (onEnter s w) = config w"
  "started (onEnter s w) = started w"
  "open_calls (onEnter s w) = open_calls w"
  "memory (onEnter s w) = memory w"
  by (cases s; simp add: Let_def connection_close_def split: option.splits)+

lemma transition_frame [simp]:
  "config (transition s w) = config w"
  "started (transition s w) = started w"
  "open_calls (transition s w) = open_calls w"
  "memory (transition s w) = memory w"
  by (simp_all add: transition_def)

lemma handlers_frame [simp]:
  "config (handlers s i w) = config w"
  "started (handlers s i w) = started w"
  "open_calls (handlers s i w) = open_calls w"
  "memory (handlers s i w) = memory w"
  by (cases s; cases i; simp)+

lemma handle_frame [simp]:
  "config (handle i w) = config w"
  "started (handle i w) = started w"
  "open_calls (handle i w) = open_calls w"
  "memory (handle i w) = memory w"
  by (simp_all add: handle_def)

lemma topology_resolved_frame [simp]:
  "config (topology_resolved ch w) = config w"
  "started (topology_resolved ch w) = started w"
  "open_calls (topology_resolved ch w) = open_calls w"
  "memory (topology_resolved ch w) = memory w"
  by (simp_all add: topology_resolved_def)

lemma bindQueues_frame [simp]:
  "config (bindQueues ch w) = config w"
  "started (bindQueues ch w) = started w"
  "open_calls (bindQueues ch w) = open_calls w"
  "memory (bindQueues ch w) = memory w"
  by (simp_all add: bindQueues_def Let_def)

lemma assertQueues_frame [simp]:
  "config (assertQueues ch w) = config w"
  "started (assertQueues ch w) = started w"
  "open_calls (assertQueues ch w) = open_calls w"
  "memory (assertQueues ch w) = memory w"
  by (simp_all add: assertQueues_def Let_def)

lemma assertExchanges_frame [simp]:
  "config (assertExchanges ch w) = config w"
  "started (assertExchanges ch w) = started w"
  "open_calls (assertExchanges ch w) = open_calls w"
  "memory (assertExchanges ch w) = memory w"
  by (simp_all add: assertExchanges_def Let_def)

lemma declare_resolved_frame [simp]:
  "config (declare_resolved ch w) = config w"
  "started (declare_resolved ch w) = started w"
  "open_calls (declare_resolved ch w) = open_calls w"
  "memory (declare_resolved ch w) = memory w"
  by (simp_all add: declare_resolved_def split: option.splits phase.splits prod.splits)

lemma declare_rejected_frame [simp]:
  "config (declare_rejected ch w) = config w"
  "started (declare_rejected ch w) = started w"
  "open_calls (declare_rejected ch w) = open_calls w"
  "memory (declare_rejected ch w) = memory w"
  by (simp_all add: declare_rejected_def split: option.splits phase.splits prod.splits)

lemma connect_resolved_frame [simp]:
  "config (connect_resolved w) = config w"
  "started (connect_resolved w) = started w"
  "open_calls (connect_resolved w) = open_calls w"
  by (simp_all add: connect_resolved_def Let_def)

lemma connect_rejected_frame [simp]:
  "config (connect_rejected w) = config w"
  "started (connect_rejected w) = started w"
  "open_calls (connect_rejected w) = open_calls w"
  "mem_reconnects (memory (connect_rejected w)) = mem_reconnects (memory w)"
  by (simp_all add: connect_rejected_def)

lemma createChannel_resolved_frame [simp]:
  "config (createChannel_resolved c w) = config w"
  "started (createChannel_resolved c w) = started w"
  "open_calls (createChannel_resolved c w) = open_calls w"
  "mem_reconnects (memory (createChannel_resolved c w)) = mem_reconnects (memory w)"
  by (simp_all add: createChannel_resolved_def assertTopology_def Let_def)

lemma createChannel_rejected_frame [simp]:
  "config (createChannel_rejected c m w) = config w"
  "started (createChannel_rejected c m w) = started w"
  "open_calls (createChannel_rejected c m w) = open_calls w"
  "memory (createChannel_rejected c m w) = memory w"
  by (simp_all add: createChannel_rejected_def)

lemma handle_events_frame [simp]:
  "config (connection_emits c n w) = config w"
  "started (connection_emits c n w) = started w"
  "open_calls (connection_emits c n w) = open_calls w"
  "memory (connection_emits c n w) = memory w"
  "config (channel_emits_error ch m w) = config w"
  "started (channel_emits_error ch m w) = started w"
  "open_calls (channel_emits_error ch m w) = open_calls w"
  "memory (channel_emits_error ch m w) = memory w"
  "config (channel_emits_close ch w) = config w"
  "started (channel_emits_close ch w) = started w"
  "open_calls (channel_emits_close ch w) = open_calls w"
  "memory (channel_emits_close ch w) = memory w"
  by (simp_all add: connection_emits_def channel_emits_error_def channel_emits_close_def
      handle_closed_conn_def handle_closed_chan_def Let_def)

lemma settle_frame [simp]:
  "config (settle p v w) = config w"
  "started (settle p v w) = started w"
  "open_calls (settle p v w) = open_calls w"
  "memory (settle p v w) = memory w"
  "timers (settle p v w) = timers w"
  "now (settle p v w) = now w"
  "state (settle p v w) = state w"
  by (simp_all add: settle_def)

lemma run_timer_frame [simp]:
  "config (run_timer cb w) = config w"
  "started (run_timer cb w) = started w"
  "open_calls (run_timer cb w) = open_calls w"
  by (cases cb; simp)+

lemma fire_frame [simp]:
  "config (fire t w) = config w"
  "started (fire t w) = started w"
  "open_calls (fire t w) = open_calls w"
  by (simp_all add: fire_def)

lemma elapse_frame [simp]:
  "config (elapse dt w) = config w"
  "started (elapse dt w) = started w"
  "open_calls (elapse dt w) = open_calls w"
  by (simp_all add: elapse_def Let_def fold_frame [where f = config]
      fold_frame [where f = started] fold_frame [where f = open_calls])

lemma close_call_frame [simp]:
  "config (close_call w) = config w"
  "started (close_call w) = started w"
  "open_calls (close_call w) = open_calls w"
  "memory (close_call w) = memory w"
  by (simp_all add: close_call_def fsm_close_def on_def Let_def)

lemma channel_call_frame [simp]:
  "config (channel_call w) = config w"
  "memory (channel_call w) = memory w"
  by (simp_all add: channel_call_def fsm_open_def on_def Let_def split: option.splits)

lemma step_config: "config (step w e) = config w"
  by (cases e) simp_all

lemma run_config: "config (run w es) = config w"
  unfolding run_def by (induction es arbitrary: w) (simp_all add: step_config)

section \<open>The configuration object\<close>

lemma or_default_case: "or_default d v = Some (case v of None \<Rightarrow> d | Some x \<Rightarrow> x)"
  by (cases v) (simp_all add: or_default_def)

lemma merged_params:
  "(case ps of None \<Rightarrow> Some default_params | Some xs \<Rightarrow> Some (merge_params xs default_params))
   = Some (case ps of None \<Rightarrow> [(''heartbeat'', 30)]
           | Some xs \<Rightarrow> xs @ (if map_of xs ''heartbeat'' = None then [(''heartbeat'', 30)] else []))"
  by (cases ps) (simp_all add: default_params_def merge_params_def)

lemma defaults_connection_filled:
  "defaults_connection c = c\<lparr>
     protocol := Some (case protocol c of None \<Rightarrow> ''amqp'' | Some x \<Rightarrow> x),
     user := Some (case user c of None \<Rightarrow> ''guest'' | Some x \<Rightarrow> x),
     password := Some (case password c of None \<Rightarrow> ''guest'' | Some x \<Rightarrow> x),
     host := Some (case host c of None \<Rightarrow> ''localhost'' | Some x \<Rightarrow> x),
     port := Some (case port c of None \<Rightarrow> 5672 | Some x \<Rightarrow> x),
     vhost := Some (case vhost c of None \<Rightarrow> ''/'' | Some x \<Rightarrow> x),
     params := Some (case params c of None \<Rightarrow> [(''heartbeat'', 30)]
       | Some ps \<Rightarrow> ps @ (if map_of ps ''heartbeat'' = None then [(''heartbeat'', 30)] else [])),
     options := Some (case options c of None \<Rightarrow> Null | Some x \<Rightarrow> x)\<rparr>"
  unfolding defaults_connection_def or_default_case merged_params ..

lemma defaults_channel_filled:
  "defaults_channel h = h\<lparr>
     prefetch := Some (case prefetch h of None \<Rightarrow> 1 | Some x \<Rightarrow> x),
     confirm := Some (case confirm h of None \<Rightarrow> True | Some x \<Rightarrow> x)\<rparr>"
  unfolding defaults_channel_def or_default_case ..

lemma defaultsDeep_filled:
  "defaultsDeep cfg = cfg\<lparr>
     connection := Some (defaults_connection
        (case connection cfg of None \<Rightarrow> empty_connection | Some x \<Rightarrow> x)),
     channel := Some (defaults_channel
        (case channel cfg of None \<Rightarrow> empty_channel | Some x \<Rightarrow> x)),
     queues := Some (case queues cfg of None \<Rightarrow> [] | Some x \<Rightarrow> x),
     exchanges := Some (case exchanges cfg of None \<Rightarrow> [] | Some x \<Rightarrow> x),
     bindings := Some (case bindings cfg of None \<Rightarrow> [] | Some x \<Rightarrow> x)\<rparr>"
  unfolding defaultsDeep_def or_default_case ..

text \<open>
  Claim C10, as amended. The claim says the caller's configuration object is never
  changed. The constructor changes it: \<^verbatim>\<open>_.defaultsDeep(config, ...)\<close> writes the defaults
  into the caller's object, the object \<open>config w\<close> stands for. What holds: after
  construction every option the caller set has the value the caller gave it, and every
  option left unset has its default: protocol \<^verbatim>\<open>amqp\<close>, user and password \<^verbatim>\<open>guest\<close>, host
  \<^verbatim>\<open>localhost\<close>, port 5672, virtual host \<^verbatim>\<open>/\<close>, query parameter \<^verbatim>\<open>heartbeat\<close> 30 (added
  after the caller's parameters when they have no \<^verbatim>\<open>heartbeat\<close>), transport options
  \<^verbatim>\<open>null\<close>, prefetch 1, confirm mode on, and no queues, exchanges or bindings. After
  construction no call, completion, event or timer changes the object.
\<close>

theorem configuration_filled_in_place:
  "(let c = (case connection cfg of None \<Rightarrow> empty_connection | Some x \<Rightarrow> x);
        h = (case channel cfg of None \<Rightarrow> empty_channel | Some x \<Rightarrow> x)
    in config (AmqpManager cfg) = cfg\<lparr>
         connection := Some (c\<lparr>
           protocol := Some (case protocol c of None \<Rightarrow> ''amqp'' | Some x \<Rightarrow> x),
           user := Some (case user c of None \<Rightarrow> ''guest'' | Some x \<Rightarrow> x),
           password := Some (case password c of None \<Rightarrow> ''guest'' | Some x \<Rightarrow> x),
           host := Some (case host c of None \<Rightarrow> ''localhost'' | Some x \<Rightarrow> x),
           port := Some (case port c of None \<Rightarrow> 5672 | Some x \<Rightarrow> x),
           vhost := Some (case vhost c of None \<Rightarrow> ''/'' | Some x \<Rightarrow> x),
           params := Some (case params c of None \<Rightarrow> [(''heartbeat'', 30)]
             | Some ps \<Rightarrow> ps @ (if map_of ps ''heartbeat'' = None then [(''heartbeat'', 30)]
                                else [])),
           options := Some (case options c of None \<Rightarrow> Null | Some x \<Rightarrow> x)\<rparr>),
         channel := Some (h\<lparr>
           prefetch := Some (case prefetch h of None \<Rightarrow> 1 | Some x \<Rightarrow> x),
           confirm := Some (case confirm h of None \<Rightarrow> True | Some x \<Rightarrow> x)\<rparr>),
         queues := Some (case queues cfg of None \<Rightarrow> [] | Some x \<Rightarrow> x),
         exchanges := Some (case exchanges cfg of None \<Rightarrow> [] | Some x \<Rightarrow> x),
         bindings := Some (case bindings cfg of None \<Rightarrow> [] | Some x \<Rightarrow> x)\<rparr>)
   \<and> (\<forall>w e. config (step w e) = config w)
   \<and> (\<forall>es. config (run (AmqpManager cfg) es) = config (AmqpManager cfg))"
proof -
  have "config (AmqpManager cfg) = defaultsDeep cfg"
    by (simp add: AmqpManager_def)
  then show ?thesis
    unfolding Let_def defaults_connection_filled [symmetric] defaults_channel_filled [symmetric]
      defaultsDeep_filled [symmetric]
    by (simp add: step_config run_config)
qed

text \<open>
  The caller passes \<^verbatim>\<open>{}\<close>; after construction the object has a \<^verbatim>\<open>queues\<close> array and a
  \<^verbatim>\<open>channel\<close> object.
\<close>

theorem configuration_mutated_counterexample:
  "config (AmqpManager empty_config) \<noteq> empty_config
   \<and> queues (config (AmqpManager empty_config)) = Some []
   \<and> channel (config (AmqpManager empty_config)) = Some \<lparr>prefetch = Some 1, confirm = Some True\<rparr>"
  by (simp add: AmqpManager_def defaultsDeep_def empty_config_def or_default_def
      defaults_channel_def empty_channel_def)

section \<open>The reconnect counter\<close>

lemma fire_reconnects:
  "mem_reconnects (memory (fire t w)) = mem_reconnects (memory w)
   \<or> (\<exists>n. snd t = ReconnectTimer n \<and> t \<in> set (timers w)
          \<and> mem_reconnects (memory (fire t w)) = Some n)"
  by (cases "snd t") (simp_all add: fire_def)

lemma fold_fire_reconnects:
  "mem_reconnects (memory (fold fire ts w)) = mem_reconnects (memory w)
   \<or> (\<exists>d n. (d, ReconnectTimer n) \<in> set ts
          \<and> mem_reconnects (memory (fold fire ts w)) = Some n)"
proof (induction ts arbitrary: w)
  case Nil
  show ?case by simp
next
  case (Cons t ts)
  from Cons.IH [of "fire t w"] show ?case
  proof
    assume same: "mem_reconnects (memory (fold fire ts (fire t w))) =
                  mem_reconnects (memory (fire t w))"
    from fire_reconnects [of t w] show ?thesis
    proof
      assume "mem_reconnects (memory (fire t w)) = mem_reconnects (memory w)"
      with same show ?thesis by simp
    next
      assume "\<exists>n. snd t = ReconnectTimer n \<and> t \<in> set (timers w)
                \<and> mem_reconnects (memory (fire t w)) = Some n"
      then obtain n where n: "snd t = ReconnectTimer n"
        "mem_reconnects (memory (fire t w)) = Some n" by blast
      then have "(fst t, ReconnectTimer n) \<in> set (t # ts)"
        by (cases t) simp
      with same n show ?thesis by auto
    qed
  next
    assume "\<exists>d n. (d, ReconnectTimer n) \<in> set ts
              \<and> mem_reconnects (memory (fold fire ts (fire t w))) = Some n"
    then show ?thesis by auto
  qed
qed

lemma elapse_reconnects:
  "mem_reconnects (memory (elapse dt w)) = mem_reconnects (memory w)
   \<or> (\<exists>d n. (d, ReconnectTimer n) \<in> set (timers w) \<and> d \<le> now w + dt
          \<and> mem_reconnects (memory (elapse dt w)) = Some n)"
  using fold_fire_reconnects
    [of "sort_key fst (filter (\<lambda>t. fst t \<le> now w + dt) (timers w))" w]
  by (auto simp add: elapse_def Let_def)

lemma step_reconnects:
  "e \<noteq> Connect_ok \<Longrightarrow> (\<forall>dt. e \<noteq> Elapse dt) \<Longrightarrow>
     mem_reconnects (memory (step w e)) = mem_reconnects (memory w)"
  by (cases e) simp_all

text \<open>
  Claim C4, as amended. The claim says the counter is reset exactly on the transition into
  \<^verbatim>\<open>connected\<close> and not before. The code resets it earlier, when the transport connect
  succeeds (lines 52-55), on the way into \<^verbatim>\<open>assert\<close>. What holds: a successful connect
  stores 0 and leaves the machine in \<^verbatim>\<open>assert\<close>; entering \<^verbatim>\<open>reconnect\<close> leaves the stored
  counter alone and captures the stored counter (0 when unset) plus one in its timer; the
  timer, when it fires, stores the captured number and enters \<^verbatim>\<open>connect\<close>; time passing
  changes the counter only through such a timer; and nothing else changes it, the entry
  into \<^verbatim>\<open>connected\<close> included.
\<close>

theorem reconnect_counter_updates:
  "(0 < connecting w \<longrightarrow>
      mem_reconnects (memory (step w Connect_ok)) = Some 0
      \<and> state (step w Connect_ok) = S_assert)
   \<and> (state w \<noteq> S_reconnect \<longrightarrow>
      memory (transition S_reconnect w) = memory w
      \<and> timers (transition S_reconnect w) = timers w @
          [(now w + waitTimeMs ((case mem_reconnects (memory w) of None \<Rightarrow> 0 | Some r \<Rightarrow> r) + 1),
            ReconnectTimer ((case mem_reconnects (memory w) of None \<Rightarrow> 0 | Some r \<Rightarrow> r) + 1))])
   \<and> ((d, ReconnectTimer n) \<in> set (timers w) \<longrightarrow>
      mem_reconnects (memory (fire (d, ReconnectTimer n) w)) = Some n
      \<and> state (fire (d, ReconnectTimer n) w) = S_connect)
   \<and> (mem_reconnects (memory (step w (Elapse dt))) = mem_reconnects (memory w)
      \<or> (\<exists>d n. (d, ReconnectTimer n) \<in> set (timers w) \<and> d \<le> now w + dt
             \<and> mem_reconnects (memory (step w (Elapse dt))) = Some n))
   \<and> (e \<noteq> Connect_ok \<and> (\<forall>dt. e \<noteq> Elapse dt) \<longrightarrow>
      mem_reconnects (memory (step w e)) = mem_reconnects (memory w))"
proof -
  have a: "0 < connecting w \<longrightarrow>
      mem_reconnects (memory (step w Connect_ok)) = Some 0
      \<and> state (step w Connect_ok) = S_assert"
    by (simp add: connect_resolved_def Let_def transition_def split: option.splits)
  have b: "state w \<noteq> S_reconnect \<longrightarrow>
      memory (transition S_reconnect w) = memory w
      \<and> timers (transition S_reconnect w) = timers w @
          [(now w + waitTimeMs ((case mem_reconnects (memory w) of None \<Rightarrow> 0 | Some r \<Rightarrow> r) + 1),
            ReconnectTimer ((case mem_reconnects (memory w) of None \<Rightarrow> 0 | Some r \<Rightarrow> r) + 1))]"
    by (simp add: transition_def Let_def)
  have c: "(d, ReconnectTimer n) \<in> set (timers w) \<longrightarrow>
      mem_reconnects (memory (fire (d, ReconnectTimer n) w)) = Some n
      \<and> state (fire (d, ReconnectTimer n) w) = S_connect"
    by (simp add: fire_def transition_def)
  have d: "mem_reconnects (memory (step w (Elapse dt))) = mem_reconnects (memory w)
      \<or> (\<exists>d n. (d, ReconnectTimer n) \<in> set (timers w) \<and> d \<le> now w + dt
             \<and> mem_reconnects (memory (step w (Elapse dt))) = Some n)"
    using elapse_reconnects [of dt w] by simp
  have e: "e \<noteq> Connect_ok \<and> (\<forall>dt. e \<noteq> Elapse dt) \<longrightarrow>
      mem_reconnects (memory (step w e)) = mem_reconnects (memory w)"
    using step_reconnects by blast
  from a b c d e show ?thesis by blast
qed

theorem reconnect_counter_updates_witness:
  "mem_reconnects (memory (run (AmqpManager empty_config) [Call_channel, Connect_ok])) = Some 0
   \<and> state (run (AmqpManager empty_config) [Call_channel, Connect_ok]) = S_assert
   \<and> timers (transition S_reconnect (run (AmqpManager empty_config) [Call_channel])) =
       [(2000, ChannelTimeout 0), (200, ReconnectTimer 1)]
   \<and> mem_reconnects (memory (fire (200, ReconnectTimer 1)
        (run (AmqpManager empty_config) [Call_channel, Connect_fail]))) = Some 1
   \<and> mem_reconnects (memory (run (AmqpManager empty_config) [Call_channel, Connect_fail]))
       = None"
  using reconnect_counter_updates
    [of "run (AmqpManager empty_config) [Call_channel]" 0 0 0 Connect_fail]
    reconnect_counter_updates
    [of "run (AmqpManager empty_config) [Call_channel, Connect_fail]" 200 1 0 Call_close]
  by (simp add: program_defs)

text \<open>
  The first connect fails and the counter is 1 after the backoff. The second connect
  succeeds: the counter is 0 while the machine is in \<^verbatim>\<open>assert\<close> and has never been in
  \<^verbatim>\<open>connected\<close> (no \<^verbatim>\<open>ready\<close> was emitted). The channel then fails to open, and the next
  reconnect is attempt 1 again.
\<close>

theorem reconnect_counter_reset_counterexample:
  "(let w = run (AmqpManager empty_config) [Call_channel, Connect_fail, Elapse 200]
    in mem_reconnects (memory w) = Some 1 \<and> state w = S_connect)
   \<and> (let w = run (AmqpManager empty_config)
              [Call_channel, Connect_fail, Elapse 200, Connect_ok]
      in mem_reconnects (memory w) = Some 0 \<and> state w = S_assert
         \<and> emitted w = [Ev_reconnect 1 200])
   \<and> (let w = run (AmqpManager empty_config)
              [Call_channel, Connect_fail, Elapse 200, Connect_ok,
               CreateChannel_fail 0 ''boom'']
      in state w = S_reconnect \<and> emitted w = [Ev_reconnect 1 200, Ev_reconnect 1 200])"
  by (simp add: program_defs)

section \<open>The promise of \<^verbatim>\<open>channel()\<close>\<close>





lemma run_listener_promises_length [simp]:
  "length (promises (run_listener l ev w)) = length (promises w)"
  by (cases l; cases ev; simp add: settle_def off_def disconnect_def)




lemma transition_connect_effect:
  "promises (transition S_connect w) = promises w"
  "timers (transition S_connect w) = timers w"
  by (simp_all add: transition_def)

lemma fire_promises_length [simp]: "length (promises (fire t w)) = length (promises w)"
  by (cases "snd t") (simp_all add: fire_def transition_connect_effect settle_def)



lemma fold_fire_promises_length [simp]:
  "length (promises (fold fire ts w)) = length (promises w)"
  by (induction ts arbitrary: w) simp_all








section \<open>Topology assertion and \<^verbatim>\<open>ready\<close>\<close>

lemma run_snoc: "run w (es @ [e]) = step (run w es) e"
  by (simp add: run_def)

lemma replicate_snoc: "replicate (Suc k) x = replicate k x @ [x]"
  by (simp add: replicate_append_same)

lemma topology_resolved_effect:
  assumes "state v = S_assert"
  shows "topology (topology_resolved ch v) ch = Some (P_resolved, 0)"
    and "calls (topology_resolved ch v) = calls v"
    and "emitted (topology_resolved ch v) = emitted v @ [Ev_ready (memory v)]"
    and "state (topology_resolved ch v) = S_connected"
  using assms by (simp_all add: topology_resolved_def transition_def)

lemma bindQueues_effect:
  assumes "state v = S_assert"
  shows "topology (bindQueues ch v) ch =
           Some (if cfg_bindings (config v) = [] then (P_resolved, 0)
                 else (P_bindings, length (cfg_bindings (config v))))"
    and "calls (bindQueues ch v) = calls v @ map (BindQueue ch) (cfg_bindings (config v))"
    and "emitted (bindQueues ch v) =
           emitted v @ (if cfg_bindings (config v) = [] then [Ev_ready (memory v)] else [])"
    and "state (bindQueues ch v) =
           (if cfg_bindings (config v) = [] then S_connected else S_assert)"
  using assms by (simp_all add: bindQueues_def Let_def topology_resolved_effect)

lemma assertQueues_effect:
  assumes "state v = S_assert"
  shows "topology (assertQueues ch v) ch =
           Some (if cfg_queues (config v) \<noteq> [] then (P_queues, length (cfg_queues (config v)))
                 else if cfg_bindings (config v) = [] then (P_resolved, 0)
                 else (P_bindings, length (cfg_bindings (config v))))"
    and "calls (assertQueues ch v) = calls v @ map (AssertQueue ch) (cfg_queues (config v))
           @ (if cfg_queues (config v) = [] then map (BindQueue ch) (cfg_bindings (config v))
              else [])"
    and "emitted (assertQueues ch v) =
           emitted v @ (if cfg_queues (config v) = [] \<and> cfg_bindings (config v) = []
                        then [Ev_ready (memory v)] else [])"
    and "state (assertQueues ch v) =
           (if cfg_queues (config v) = [] \<and> cfg_bindings (config v) = []
            then S_connected else S_assert)"
  using assms by (simp_all add: assertQueues_def Let_def bindQueues_effect)

lemma assertExchanges_effect:
  assumes "state v = S_assert"
  shows "topology (assertExchanges ch v) ch =
           Some (if cfg_exchanges (config v) \<noteq> []
                 then (P_exchanges, length (cfg_exchanges (config v)))
                 else if cfg_queues (config v) \<noteq> [] then (P_queues, length (cfg_queues (config v)))
                 else if cfg_bindings (config v) = [] then (P_resolved, 0)
                 else (P_bindings, length (cfg_bindings (config v))))"
    and "calls (assertExchanges ch v) =
           calls v @ map (AssertExchange ch) (cfg_exchanges (config v))
           @ (if cfg_exchanges (config v) = []
              then map (AssertQueue ch) (cfg_queues (config v)) else [])
           @ (if cfg_exchanges (config v) = [] \<and> cfg_queues (config v) = []
              then map (BindQueue ch) (cfg_bindings (config v)) else [])"
    and "emitted (assertExchanges ch v) =
           emitted v @ (if cfg_exchanges (config v) = [] \<and> cfg_queues (config v) = []
                           \<and> cfg_bindings (config v) = []
                        then [Ev_ready (memory v)] else [])"
    and "state (assertExchanges ch v) =
           (if cfg_exchanges (config v) = [] \<and> cfg_queues (config v) = []
               \<and> cfg_bindings (config v) = []
            then S_connected else S_assert)"
  using assms by (simp_all add: assertExchanges_def Let_def assertQueues_effect)

lemma declare_resolved_step:
  assumes st: "state v = S_assert \<or> topology v ch = Some (P_resolved, 0)"
    and topo: "topology v ch = Some
       (if k < e then (P_exchanges, e - k)
        else if k < e + q then (P_queues, e + q - k)
        else if k < e + q + b then (P_bindings, e + q + b - k)
        else (P_resolved, 0))"
    and e: "e = length (cfg_exchanges (config v))"
    and q: "q = length (cfg_queues (config v))"
    and b: "b = length (cfg_bindings (config v))"
  shows "topology (declare_resolved ch v) ch = Some
       (if Suc k < e then (P_exchanges, e - Suc k)
        else if Suc k < e + q then (P_queues, e + q - Suc k)
        else if Suc k < e + q + b then (P_bindings, e + q + b - Suc k)
        else (P_resolved, 0))"
    and "calls (declare_resolved ch v) = calls v
       @ (if Suc k = e then map (AssertQueue ch) (cfg_queues (config v)) else [])
       @ (if Suc k = e + q then map (BindQueue ch) (cfg_bindings (config v)) else [])"
    and "emitted (declare_resolved ch v) = emitted v
       @ (if Suc k = e + q + b then [Ev_ready (memory v)] else [])"
    and "state (declare_resolved ch v) = (if Suc k = e + q + b then S_connected else state v)"
proof -
  have nil: "(cfg_exchanges (config v) = []) = (e = 0)"
    "(cfg_queues (config v) = []) = (q = 0)" "(cfg_bindings (config v) = []) = (b = 0)"
    by (simp_all add: e q b)
  consider (A) "Suc k < e" | (B) "Suc k = e"
    | (C) "e \<le> k" "Suc k < e + q" | (D) "e \<le> k" "Suc k = e + q"
    | (E) "e + q \<le> k" "Suc k < e + q + b" | (F) "e + q \<le> k" "Suc k = e + q + b"
    | (G) "e + q + b \<le> k"
    by linarith
  then have "topology (declare_resolved ch v) ch = Some
       (if Suc k < e then (P_exchanges, e - Suc k)
        else if Suc k < e + q then (P_queues, e + q - Suc k)
        else if Suc k < e + q + b then (P_bindings, e + q + b - Suc k)
        else (P_resolved, 0))
    \<and> calls (declare_resolved ch v) = calls v
       @ (if Suc k = e then map (AssertQueue ch) (cfg_queues (config v)) else [])
       @ (if Suc k = e + q then map (BindQueue ch) (cfg_bindings (config v)) else [])
    \<and> emitted (declare_resolved ch v) = emitted v
       @ (if Suc k = e + q + b then [Ev_ready (memory v)] else [])
    \<and> state (declare_resolved ch v) = (if Suc k = e + q + b then S_connected else state v)"
  proof cases
    case A
    then have "topology v ch = Some (P_exchanges, e - k)" "\<not> e - k \<le> 1"
      using topo by simp_all
    with A show ?thesis by (simp add: declare_resolved_def)
  next
    case B
    then have t: "topology v ch = Some (P_exchanges, e - k)" "e - k \<le> 1"
      using topo by simp_all
    then have s: "state v = S_assert" using st by simp
    have "declare_resolved ch v = assertQueues ch v"
      using t by (simp add: declare_resolved_def)
    with B show ?thesis
      by (simp add: assertQueues_effect [OF s] nil s) (simp add: q b)
  next
    case C
    then have "topology v ch = Some (P_queues, e + q - k)" "\<not> e + q - k \<le> 1"
      using topo by simp_all
    with C show ?thesis by (simp add: declare_resolved_def)
  next
    case D
    then have t: "topology v ch = Some (P_queues, e + q - k)" "e + q - k \<le> 1"
      using topo by simp_all
    then have s: "state v = S_assert" using st by simp
    have "declare_resolved ch v = bindQueues ch v"
      using t by (simp add: declare_resolved_def)
    with D show ?thesis
      by (simp add: bindQueues_effect [OF s] nil s) (simp add: b)
  next
    case E
    then have "topology v ch = Some (P_bindings, e + q + b - k)" "\<not> e + q + b - k \<le> 1"
      using topo by simp_all
    with E show ?thesis by (simp add: declare_resolved_def)
  next
    case F
    then have t: "topology v ch = Some (P_bindings, e + q + b - k)" "e + q + b - k \<le> 1"
      using topo by simp_all
    then have s: "state v = S_assert" using st by simp
    have "declare_resolved ch v = topology_resolved ch v"
      using t by (simp add: declare_resolved_def)
    with F show ?thesis
      by (simp add: topology_resolved_effect [OF s] s)
  next
    case G
    then have "topology v ch = Some (P_resolved, 0)"
      using topo by simp
    with G show ?thesis by (simp add: declare_resolved_def)
  qed
  then show "topology (declare_resolved ch v) ch = Some
       (if Suc k < e then (P_exchanges, e - Suc k)
        else if Suc k < e + q then (P_queues, e + q - Suc k)
        else if Suc k < e + q + b then (P_bindings, e + q + b - Suc k)
        else (P_resolved, 0))"
    and "calls (declare_resolved ch v) = calls v
       @ (if Suc k = e then map (AssertQueue ch) (cfg_queues (config v)) else [])
       @ (if Suc k = e + q then map (BindQueue ch) (cfg_bindings (config v)) else [])"
    and "emitted (declare_resolved ch v) = emitted v
       @ (if Suc k = e + q + b then [Ev_ready (memory v)] else [])"
    and "state (declare_resolved ch v) = (if Suc k = e + q + b then S_connected else state v)"
    by blast+
qed

lemma createChannel_resolved_effect:
  assumes "state w = S_assert" and "c \<in> set (creating w)" and "c \<in> set (open_conns w)"
  shows "createChannel_resolved c w = assertExchanges (next_handle w)
     (w\<lparr>creating := remove1 c (creating w), next_handle := next_handle w + 1,
        open_chans := open_chans w @ [(next_handle w, c)],
        calls := calls w @ [Prefetch (next_handle w) (cfg_prefetch (config w))],
        memory := (memory w)\<lparr>mem_channel := Some (next_handle w)\<rparr>,
        chan_listeners := chan_listeners w @
          [(next_handle w, ''error''), (next_handle w, ''close'')]\<rparr>)"
  using assms by (simp add: createChannel_resolved_def assertTopology_def Let_def)

lemma topology_after:
  assumes "state w = S_assert" and "c \<in> set (creating w)" and "c \<in> set (open_conns w)"
  defines "ch \<equiv> next_handle w"
    and "e \<equiv> length (cfg_exchanges (config w))"
    and "q \<equiv> length (cfg_queues (config w))"
    and "b \<equiv> length (cfg_bindings (config w))"
    and "wk \<equiv> \<lambda>k. run (createChannel_resolved c w) (replicate k (Declare_ok (next_handle w)))"
  shows "topology (wk k) ch =
           Some (if k < e then (P_exchanges, e - k)
                 else if k < e + q then (P_queues, e + q - k)
                 else if k < e + q + b then (P_bindings, e + q + b - k)
                 else (P_resolved, 0))
       \<and> calls (wk k) = calls w @ [Prefetch ch (cfg_prefetch (config w))]
           @ map (AssertExchange ch) (cfg_exchanges (config w))
           @ (if e \<le> k then map (AssertQueue ch) (cfg_queues (config w)) else [])
           @ (if e + q \<le> k then map (BindQueue ch) (cfg_bindings (config w)) else [])
       \<and> emitted (wk k) = emitted w
           @ (if e + q + b \<le> k then [Ev_ready ((memory w)\<lparr>mem_channel := Some ch\<rparr>)] else [])
       \<and> state (wk k) = (if e + q + b \<le> k then S_connected else S_assert)
       \<and> config (wk k) = config w
       \<and> memory (wk k) = (memory w)\<lparr>mem_channel := Some ch\<rparr>"
proof (induction k)
  case 0
  have "wk 0 = createChannel_resolved c w"
    by (simp add: wk_def run_def)
  then show ?case
    by (simp add: createChannel_resolved_effect [OF assms(1-3)] assertExchanges_effect
        assms(1) ch_def e_def q_def b_def)
next
  case (Suc k)
  let ?v = "wk k"
  have step: "wk (Suc k) = declare_resolved ch ?v"
    by (simp add: wk_def ch_def replicate_snoc run_snoc del: replicate_Suc)
  have cfg: "config ?v = config w" and mem: "memory ?v = (memory w)\<lparr>mem_channel := Some ch\<rparr>"
    using Suc.IH by simp_all
  have st: "state ?v = S_assert \<or> topology ?v ch = Some (P_resolved, 0)"
    using Suc.IH by (cases "e + q + b \<le> k") simp_all
  have topo: "topology ?v ch = Some
       (if k < e then (P_exchanges, e - k)
        else if k < e + q then (P_queues, e + q - k)
        else if k < e + q + b then (P_bindings, e + q + b - k)
        else (P_resolved, 0))"
    using Suc.IH by simp
  have len: "e = length (cfg_exchanges (config ?v))" "q = length (cfg_queues (config ?v))"
    "b = length (cfg_bindings (config ?v))"
    by (simp_all add: cfg e_def q_def b_def)
  note d = declare_resolved_step [OF st topo len, unfolded cfg mem]
  have nil: "q = 0 \<Longrightarrow> cfg_queues (config w) = []" "b = 0 \<Longrightarrow> cfg_bindings (config w) = []"
    by (simp_all add: q_def b_def)
  have calls: "calls (wk (Suc k)) = calls w @ [Prefetch ch (cfg_prefetch (config w))]
           @ map (AssertExchange ch) (cfg_exchanges (config w))
           @ (if e \<le> Suc k then map (AssertQueue ch) (cfg_queues (config w)) else [])
           @ (if e + q \<le> Suc k then map (BindQueue ch) (cfg_bindings (config w)) else [])"
  proof -
    have ck: "calls ?v = calls w @ [Prefetch ch (cfg_prefetch (config w))]
           @ map (AssertExchange ch) (cfg_exchanges (config w))
           @ (if e \<le> k then map (AssertQueue ch) (cfg_queues (config w)) else [])
           @ (if e + q \<le> k then map (BindQueue ch) (cfg_bindings (config w)) else [])"
      using Suc.IH by simp
    have c1: "calls (wk (Suc k)) = calls ?v
       @ (if Suc k = e then map (AssertQueue ch) (cfg_queues (config w)) else [])
       @ (if Suc k = e + q then map (BindQueue ch) (cfg_bindings (config w)) else [])"
      by (simp add: step d(2))
    consider (lt) "Suc k < e" | (eq) "Suc k = e" | (mid) "e \<le> k" "Suc k < e + q"
      | (eq2) "e \<le> k" "Suc k = e + q" | (gt) "e + q \<le> k"
      by linarith
    then show ?thesis
    proof cases
      case lt then show ?thesis using c1 ck by simp
    next
      case eq then show ?thesis using c1 ck by (cases "q = 0") (auto simp add: nil)
    next
      case mid then show ?thesis using c1 ck by simp
    next
      case eq2 then show ?thesis using c1 ck by (cases "q = 0") (auto simp add: nil)
    next
      case gt then show ?thesis using c1 ck by simp
    qed
  qed
  have em: "emitted (wk (Suc k)) = emitted w
           @ (if e + q + b \<le> Suc k then [Ev_ready ((memory w)\<lparr>mem_channel := Some ch\<rparr>)]
              else [])"
  proof -
    have "emitted (wk (Suc k)) = emitted ?v
       @ (if Suc k = e + q + b then [Ev_ready ((memory w)\<lparr>mem_channel := Some ch\<rparr>)] else [])"
      by (simp add: step d(3))
    moreover have "emitted ?v = emitted w
       @ (if e + q + b \<le> k then [Ev_ready ((memory w)\<lparr>mem_channel := Some ch\<rparr>)] else [])"
      using Suc.IH by simp
    ultimately show ?thesis by (simp split: if_splits)
  qed
  have sta: "state (wk (Suc k)) = (if e + q + b \<le> Suc k then S_connected else S_assert)"
  proof -
    have "state (wk (Suc k)) = (if Suc k = e + q + b then S_connected else state ?v)"
      by (simp add: step d(4))
    moreover have "state ?v = (if e + q + b \<le> k then S_connected else S_assert)"
      using Suc.IH by simp
    ultimately show ?thesis by (simp split: if_splits)
  qed
  have "config (wk (Suc k)) = config w" "memory (wk (Suc k)) = (memory w)\<lparr>mem_channel := Some ch\<rparr>"
    by (simp_all add: step cfg mem)
  moreover have "topology (wk (Suc k)) ch = Some
       (if Suc k < e then (P_exchanges, e - Suc k)
        else if Suc k < e + q then (P_queues, e + q - Suc k)
        else if Suc k < e + q + b then (P_bindings, e + q + b - Suc k)
        else (P_resolved, 0))"
    unfolding step by (rule d(1))
  ultimately show ?case
    using calls em sta by blast
qed

lemma readies_emit: "readies (emit ev w) = readies w @ (if is_ready ev then [ev] else [])"
  by (simp add: readies_def)

lemma readies_onEnter: "s \<noteq> S_connected \<Longrightarrow> readies (onEnter s w) = readies w"
  by (cases s) (simp_all add: readies_emit Let_def, simp_all add: readies_def
      connection_close_def split: option.splits)

lemma readies_transition: "s \<noteq> S_connected \<Longrightarrow> readies (transition s w) = readies w"
  by (simp add: transition_def readies_onEnter) (simp add: readies_def)

lemma readies_handlers: "readies (handlers s i w) = readies w"
  by (cases s; cases i; simp add: readies_transition readies_emit)

lemma readies_handle: "readies (handle i w) = readies w"
  by (simp add: handle_def readies_handlers readies_transition)

lemma readies_settle: "readies (settle p v w) = readies w"
  by (simp add: readies_def settle_def)

lemma readies_fire: "readies (fire t w) = readies w"
proof (cases "snd t")
  case (ReconnectTimer n)
  have "readies (transition S_connect v) = readies v" for v
    by (simp add: readies_transition)
  then show ?thesis using ReconnectTimer
    by (simp add: fire_def) (simp add: readies_def)
next
  case (ChannelTimeout p)
  have "readies (settle p x v) = readies v" for x v
    by (rule readies_settle)
  then show ?thesis using ChannelTimeout
    by (simp add: fire_def) (simp add: readies_def)
qed

lemma readies_elapse: "readies (elapse dt w) = readies w"
proof -
  have "readies (fold fire ts v) = readies v" for ts v
    by (induction ts arbitrary: v) (simp_all add: readies_fire)
  then show ?thesis
    by (simp add: elapse_def Let_def) (simp add: readies_def)
qed

lemma readies_channel_call: "readies (channel_call w) = readies w"
proof -
  have "readies (handle I_open v) = readies v" for v
    by (rule readies_handle)
  then show ?thesis
    by (simp add: channel_call_def Let_def on_def fsm_open_def split: option.splits)
      (simp add: readies_def)
qed

lemma readies_close_call: "readies (close_call w) = readies w"
proof -
  have "readies (transition S_close v) = readies v" for v
    by (simp add: readies_transition)
  then show ?thesis
    by (simp add: close_call_def Let_def on_def fsm_close_def) (simp add: readies_def)
qed

lemma readies_connect_resolved: "readies (connect_resolved w) = readies w"
proof -
  have "readies (transition S_assert v) = readies v" for v
    by (simp add: readies_transition)
  then show ?thesis
    by (simp add: connect_resolved_def Let_def) (simp add: readies_def)
qed

lemma readies_by_handle:
  "readies (connect_rejected w) = readies w"
  "readies (createChannel_rejected c m w) = readies w"
  "readies (connection_emits c n w) = readies w"
  "readies (channel_emits_error ch m w) = readies w"
  "readies (channel_emits_close ch w) = readies w"
  "readies (declare_rejected ch w) = readies w"
  by (simp_all add: connect_rejected_def createChannel_rejected_def connection_emits_def
      channel_emits_error_def channel_emits_close_def Let_def readies_handle
      declare_rejected_def split: option.splits phase.splits prod.splits)
    (simp_all add: readies_def handle_closed_conn_def handle_closed_chan_def)

lemma topology_resolved_topology [simp]:
  "topology (topology_resolved ch w) ch = Some (P_resolved, 0)"
  by (simp add: topology_resolved_def transition_def)

lemma ready_bindQueues:
  "readies (bindQueues ch w) = readies w
   \<or> topology (bindQueues ch w) ch = Some (P_resolved, 0)"
  by (simp add: bindQueues_def Let_def) (simp add: readies_def)

lemma ready_assertQueues:
  "readies (assertQueues ch w) = readies w
   \<or> topology (assertQueues ch w) ch = Some (P_resolved, 0)"
proof (cases "cfg_queues (config w) = []")
  case True
  then show ?thesis
    using ready_bindQueues [of ch "w\<lparr>calls := calls w @ []\<rparr>"]
    by (simp add: assertQueues_def Let_def)
next
  case False
  then show ?thesis by (simp add: assertQueues_def Let_def readies_def)
qed

lemma ready_assertExchanges:
  "readies (assertExchanges ch w) = readies w
   \<or> topology (assertExchanges ch w) ch = Some (P_resolved, 0)"
proof (cases "cfg_exchanges (config w) = []")
  case True
  then show ?thesis
    using ready_assertQueues [of ch "w\<lparr>calls := calls w @ []\<rparr>"]
    by (simp add: assertExchanges_def Let_def)
next
  case False
  then show ?thesis by (simp add: assertExchanges_def Let_def readies_def)
qed

lemma ready_declare_resolved:
  "readies (declare_resolved ch w) = readies w
   \<or> topology (declare_resolved ch w) ch = Some (P_resolved, 0)"
  using ready_assertQueues [of ch w] ready_bindQueues [of ch w]
  by (simp add: declare_resolved_def split: option.splits phase.splits prod.splits)
    (simp add: readies_def)

lemma ready_createChannel_resolved:
  "readies (createChannel_resolved c w) = readies w
   \<or> topology (createChannel_resolved c w) (next_handle w) = Some (P_resolved, 0)"
proof (cases "c \<in> set (creating w) \<and> c \<in> set (open_conns w)")
  case True
  let ?v = "w\<lparr>creating := remove1 c (creating w), next_handle := next_handle w + 1,
        open_chans := open_chans w @ [(next_handle w, c)],
        calls := calls w @ [Prefetch (next_handle w) (cfg_prefetch (config w))],
        memory := (memory w)\<lparr>mem_channel := Some (next_handle w)\<rparr>,
        chan_listeners := chan_listeners w @
          [(next_handle w, ''error''), (next_handle w, ''close'')]\<rparr>"
  have "createChannel_resolved c w = assertExchanges (next_handle w) ?v"
    using True by (simp add: createChannel_resolved_def assertTopology_def Let_def)
  moreover have "readies ?v = readies w"
    by (simp add: readies_def)
  ultimately show ?thesis
    using ready_assertExchanges [of "next_handle w" ?v] by auto
next
  case False
  then show ?thesis by (auto simp add: createChannel_resolved_def)
qed

lemma ready_only_after_topology:
  "readies (step v ev) = readies v
   \<or> (\<exists>ch. (ev = Declare_ok ch \<or> (\<exists>c. ev = CreateChannel_ok c \<and> ch = next_handle v))
          \<and> topology (step v ev) ch = Some (P_resolved, 0))"
proof (cases ev)
  case (Declare_ok ch)
  then show ?thesis using ready_declare_resolved [of ch v] by auto
next
  case (CreateChannel_ok c)
  then show ?thesis using ready_createChannel_resolved [of c v] by auto
qed (simp_all add: readies_channel_call readies_close_call readies_connect_resolved
      readies_by_handle readies_elapse)

lemma run_append: "run w (xs @ ys) = run (run w xs) ys"
  by (simp add: run_def)

lemma chain_over:
  assumes "topology v ch = Some (P_resolved, n) \<or> topology v ch = Some (P_rejected, n)"
  shows "run v (map (\<lambda>b. if b then Declare_ok ch else Declare_fail ch) bs) = v"
proof (induction bs)
  case Nil
  show ?case by (simp add: run_def)
next
  case (Cons b bs)
  have "step v (if b then Declare_ok ch else Declare_fail ch) = v"
    using assms by (auto simp add: declare_resolved_def declare_rejected_def)
  then show ?case using Cons.IH by (simp add: run_def)
qed

lemma declare_rejected_effect:
  "calls (declare_rejected ch v) = calls v"
  "emitted (declare_rejected ch v) = emitted v"
  "(\<exists>n. topology (declare_rejected ch v) ch = Some (P_resolved, n))
   \<or> (\<exists>n. topology (declare_rejected ch v) ch = Some (P_rejected, n))
   \<or> topology v ch = None"
  by (auto simp add: declare_rejected_def split: option.splits phase.splits prod.splits)

text \<open>
  The order of the declarations of one chain. \<open>bs\<close> lists how the outstanding
  declarations of the channel end, in the order in which they end: fulfilled (\<open>True\<close>) or
  rejected (\<open>False\<close>); \<open>k\<close> counts the fulfilments before the first rejection. The calls
  made are all exchanges; all queues as well exactly when \<open>k\<close> has reached the number of
  exchanges; all bindings as well exactly when \<open>k\<close> has reached the number of exchanges
  and queues together; and the chain has emitted \<^verbatim>\<open>ready\<close> exactly when \<open>k\<close> has reached
  the number of all declarations. After a rejection nothing more is declared.
\<close>

lemma topology_with_rejections:
  assumes "state w = S_assert" and "c \<in> set (creating w)" and "c \<in> set (open_conns w)"
  shows "(let ch = next_handle w;
              k = length (takeWhile id bs);
              wk = run (createChannel_resolved c w)
                     (map (\<lambda>b. if b then Declare_ok ch else Declare_fail ch) bs);
              e = length (cfg_exchanges (config w));
              q = length (cfg_queues (config w));
              b = length (cfg_bindings (config w))
          in calls wk = calls w @ [Prefetch ch (cfg_prefetch (config w))]
               @ map (AssertExchange ch) (cfg_exchanges (config w))
               @ (if e \<le> k then map (AssertQueue ch) (cfg_queues (config w)) else [])
               @ (if e + q \<le> k then map (BindQueue ch) (cfg_bindings (config w)) else [])
             \<and> emitted wk = emitted w
               @ (if e + q + b \<le> k then [Ev_ready ((memory w)\<lparr>mem_channel := Some ch\<rparr>)]
                  else []))"
proof -
  let ?ch = "next_handle w"
  let ?f = "\<lambda>b. if b then Declare_ok ?ch else Declare_fail ?ch"
  let ?k = "length (takeWhile id bs)"
  let ?v = "run (createChannel_resolved c w) (replicate ?k (Declare_ok ?ch))"
  let ?wk = "run (createChannel_resolved c w) (map ?f bs)"
  note after = topology_after [OF assms, of ?k]
  have tw: "takeWhile id bs = replicate ?k True"
    by (induction bs) auto
  have "map ?f (takeWhile id bs) = replicate ?k (Declare_ok ?ch)"
    by (subst tw) simp
  then have split: "map ?f bs = replicate ?k (Declare_ok ?ch) @ map ?f (dropWhile id bs)"
    by (metis map_append takeWhile_dropWhile_id)
  have rest: "calls (run ?v (map ?f (dropWhile id bs))) = calls ?v
        \<and> emitted (run ?v (map ?f (dropWhile id bs))) = emitted ?v"
  proof (cases "dropWhile id bs")
    case Nil
    have "run ?v (map ?f []) = ?v" by (simp add: run_def)
    then show ?thesis unfolding Nil by simp
  next
    case (Cons b bs')
    then have "\<not> b" using hd_dropWhile [of id bs] by force
    then have r: "run ?v (map ?f (dropWhile id bs)) = run (declare_rejected ?ch ?v) (map ?f bs')"
      unfolding Cons by (simp add: run_def)
    have "topology ?v ?ch \<noteq> None"
      using after by simp
    then obtain n where "topology (declare_rejected ?ch ?v) ?ch = Some (P_resolved, n)
        \<or> topology (declare_rejected ?ch ?v) ?ch = Some (P_rejected, n)"
      using declare_rejected_effect(3) [of ?ch ?v] by auto
    then have "run (declare_rejected ?ch ?v) (map ?f bs') = declare_rejected ?ch ?v"
      by (rule chain_over)
    then show ?thesis by (simp add: r declare_rejected_effect)
  qed
  have "?wk = run ?v (map ?f (dropWhile id bs))"
    by (subst split) (simp only: run_append)
  then have c: "calls ?wk = calls ?v" and e: "emitted ?wk = emitted ?v"
    using rest by simp_all
  show ?thesis
    unfolding Let_def c e using after by blast
qed

text \<open>
  Claim C6 says that \<^verbatim>\<open>ready\<close>, and with it the resolution of a pending \<^verbatim>\<open>channel()\<close>, is
  observable only after every topology declaration of that connection attempt has
  completed. Each chain declares in the claimed order, but its \<^verbatim>\<open>then\<close> (lines 91-93)
  runs \<^verbatim>\<open>this.transition('connected')\<close> whatever has happened since, and \<^verbatim>\<open>reconnect\<close>
  abandons an attempt without closing its connection, so the chain of an abandoned attempt
  can still complete. In this run the manager is connected on connection 0, its channel
  fails and connection 0 is left open; the second attempt (connection 2, channel 3) is
  abandoned when connection 0 fails, with the exchange declaration of channel 3
  outstanding; the third attempt (connection 4, channel 5) has declared its exchange and
  waits. Then the declarations of channel 3 are fulfilled on connection 2, which is still
  open: the machine enters \<^verbatim>\<open>connected\<close> and emits \<^verbatim>\<open>ready\<close> carrying channel 5, the
  pending \<^verbatim>\<open>channel()\<close> resolves with channel 5, and neither the queue nor the binding
  of channel 5 has been declared.
\<close>

theorem stale_topology_emits_ready:
  "(let w = run (AmqpManager example_config)
        [Call_channel, Connect_ok, CreateChannel_ok 0, Declare_ok 1, Declare_ok 1, Declare_ok 1,
         Channel_error 1 ''boom'', Elapse 200, Connect_ok, CreateChannel_ok 2,
         Connection_error 0, Call_channel, Elapse 200, Connect_ok, CreateChannel_ok 4]
    in state w = S_assert \<and> mem_channel (memory w) = Some 5
       \<and> topology w 3 = Some (P_exchanges, 1) \<and> topology w 5 = Some (P_exchanges, 1)
       \<and> open_conns w = [2, 4] \<and> promises w = [Resolved (Some 1), Pending])
   \<and> (let w = run (AmqpManager example_config)
        [Call_channel, Connect_ok, CreateChannel_ok 0, Declare_ok 1, Declare_ok 1, Declare_ok 1,
         Channel_error 1 ''boom'', Elapse 200, Connect_ok, CreateChannel_ok 2,
         Connection_error 0, Call_channel, Elapse 200, Connect_ok, CreateChannel_ok 4,
         Declare_ok 3, Declare_ok 3, Declare_ok 3]
      in state w = S_connected
         \<and> last (emitted w) = Ev_ready \<lparr>mem_connection = Some 4, mem_channel = Some 5,
                                          mem_reconnects = Some 0\<rparr>
         \<and> topology w 5 = Some (P_exchanges, 1)
         \<and> AssertQueue 5 (Queue ''Q'' []) \<notin> set (calls w)
         \<and> BindQueue 5 (Binding ''Q'' ''E'' ''events.#'') \<notin> set (calls w)
         \<and> cached_channel w = Some 5
         \<and> promises w = [Resolved (Some 1), Resolved (Some 5)])"
  by (simp add: program_defs example_config_def)

end
